theory Spec2Isabelle
  imports Main "HOL-Library.Sublist" "HOL-Library.Monad_Syntax"
begin

section \<open>Python string operations used by the changelog pipeline\<close>

text \<open>
  The pipeline of \<^verbatim>\<open>process_changelog_to_jira.py\<close> works on Python \<^verbatim>\<open>str\<close> values read
  from and written to text files. A text is modelled as a \<^typ>\<open>string\<close>; the operations below
  follow Python on ASCII text (white space is what \<^verbatim>\<open>str.isspace\<close> accepts below code 128,
  case mapping touches the letters A-Z and a-z only). A file is identified with the text that
  \<^verbatim>\<open>read()\<close> returns and \<^verbatim>\<open>write()\<close> receives.
\<close>

definition isspace :: "char \<Rightarrow> bool" where
  "isspace c = (c \<in> set [CHR 0x09, CHR 0x0A, CHR 0x0B, CHR 0x0C, CHR 0x0D,
                          CHR 0x1C, CHR 0x1D, CHR 0x1E, CHR 0x1F, CHR 0x20])"

definition strip :: "string \<Rightarrow> string" where
  "strip s = rev (dropWhile isspace (rev (dropWhile isspace s)))"

definition ascii_uppercase :: string where
  "ascii_uppercase = ''ABCDEFGHIJKLMNOPQRSTUVWXYZ''"

definition ascii_lowercase :: string where
  "ascii_lowercase = ''abcdefghijklmnopqrstuvwxyz''"

definition lower_char :: "char \<Rightarrow> char" where
  "lower_char c = (case map_of (zip ascii_uppercase ascii_lowercase) c of Some d \<Rightarrow> d | None \<Rightarrow> c)"

definition upper_char :: "char \<Rightarrow> char" where
  "upper_char c = (case map_of (zip ascii_lowercase ascii_uppercase) c of Some d \<Rightarrow> d | None \<Rightarrow> c)"

definition lower :: "string \<Rightarrow> string" where
  "lower s = map lower_char s"

definition upper :: "string \<Rightarrow> string" where
  "upper s = map upper_char s"

definition capitalize :: "string \<Rightarrow> string" where
  "capitalize s = (case s of [] \<Rightarrow> [] | c # cs \<Rightarrow> upper_char c # map lower_char cs)"

definition endswith :: "string \<Rightarrow> string \<Rightarrow> bool" where
  "endswith s suf = suffix suf s"

definition startswith :: "string \<Rightarrow> string \<Rightarrow> bool" where
  "startswith s pre = prefix pre s"

text \<open>\<^verbatim>\<open>s.find(sub)\<close>: the index of the leftmost occurrence, \<open>None\<close> for Python's \<open>-1\<close>.\<close>

fun find_py :: "string \<Rightarrow> string \<Rightarrow> nat option" where
  "find_py [] sub = (if sub = [] then Some 0 else None)"
| "find_py (c # cs) sub = (if prefix sub (c # cs) then Some 0 else map_option Suc (find_py cs sub))"

text \<open>\<^verbatim>\<open>s.find(sub, start)\<close> for a start index that is not negative.\<close>

definition find_from :: "string \<Rightarrow> string \<Rightarrow> nat \<Rightarrow> nat option" where
  "find_from s sub start =
     (if start \<le> length s then map_option (\<lambda>k. start + k) (find_py (drop start s) sub) else None)"

text \<open>\<^verbatim>\<open>sub in s\<close>.\<close>

definition contains :: "string \<Rightarrow> string \<Rightarrow> bool" where
  "contains s sub = (find_py s sub \<noteq> None)"

lemma find_py_bound: "find_py s sub = Some i \<Longrightarrow> i + length sub \<le> length s"
proof (induction s arbitrary: i)
  case Nil
  then show ?case by (simp split: if_splits)
next
  case (Cons c cs)
  show ?case
  proof (cases "prefix sub (c # cs)")
    case True
    with Cons.prems show ?thesis by (auto dest: prefix_length_le)
  next
    case False
    with Cons.prems obtain j where "find_py cs sub = Some j" "i = Suc j" by auto
    with Cons.IH show ?thesis by fastforce
  qed
qed

text \<open>
  \<^verbatim>\<open>s.split(sep)\<close>. Python raises \<^verbatim>\<open>ValueError\<close> for an empty separator; the pipeline only
  splits at its two fixed separators, and the model returns the text unsplit there.
\<close>

function split_py :: "string \<Rightarrow> string \<Rightarrow> string list" where
  "split_py s sep =
     (case find_py s sep of
        None \<Rightarrow> [s]
      | Some i \<Rightarrow> if sep = [] then [s] else take i s # split_py (drop (i + length sep) s) sep)"
  by pat_completeness auto
termination
proof (relation "measure (\<lambda>(s, sep). length s)")
  show "wf (measure (\<lambda>(s, sep). length s))" by simp
next
  fix s sep :: string and i :: nat
  assume f: "find_py s sep = Some i" and ne: "sep \<noteq> []"
  from ne have "0 < length sep" by simp
  with find_py_bound [OF f] have "length s - (i + length sep) < length s" by arith
  then show "((drop (i + length sep) s, sep), (s, sep)) \<in> measure (\<lambda>(s, sep). length s)" by simp
qed

declare split_py.simps [simp del]

text \<open>\<^verbatim>\<open>sep.join(xs)\<close>.\<close>

fun join_py :: "string \<Rightarrow> string list \<Rightarrow> string" where
  "join_py sep [] = []"
| "join_py sep [x] = x"
| "join_py sep (x # y # ys) = x @ sep @ join_py sep (y # ys)"

text \<open>
  \<^verbatim>\<open>int(s)\<close> on ASCII text: surrounding white space, an optional sign, decimal digits with
  single underscores between digits. \<open>None\<close> stands for \<^verbatim>\<open>ValueError\<close>.
\<close>

definition digit_py :: "char \<Rightarrow> nat option" where
  "digit_py c = map_of (zip ''0123456789'' [0, 1, 2, 3, 4, 5, 6, 7, 8, 9]) c"

fun digits_py :: "nat \<Rightarrow> string \<Rightarrow> nat option" where
  "digits_py acc [] = Some acc"
| "digits_py acc [c] = map_option (\<lambda>d. 10 * acc + d) (digit_py c)"
| "digits_py acc (c # d # cs) =
     (if c = CHR ''_'' then
        (case digit_py d of Some v \<Rightarrow> digits_py (10 * acc + v) cs | None \<Rightarrow> None)
      else
        (case digit_py c of Some v \<Rightarrow> digits_py (10 * acc + v) (d # cs) | None \<Rightarrow> None))"

definition unsigned_py :: "string \<Rightarrow> nat option" where
  "unsigned_py s =
     (case s of [] \<Rightarrow> None
      | c # cs \<Rightarrow> (case digit_py c of Some v \<Rightarrow> digits_py v cs | None \<Rightarrow> None))"

definition int_py :: "string \<Rightarrow> int option" where
  "int_py s =
     (case strip s of
        [] \<Rightarrow> None
      | c # cs \<Rightarrow>
          if c = CHR ''-'' then map_option (\<lambda>n. - int n) (unsigned_py cs)
          else if c = CHR ''+'' then map_option int (unsigned_py cs)
          else map_option int (unsigned_py (c # cs)))"


section \<open>Pending entries: \<^verbatim>\<open>parse_pending_entry\<close>\<close>

text \<open>
  The dictionary returned by \<^verbatim>\<open>parse_pending_entry\<close> has at most five keys; a key that is
  absent is \<open>None\<close>, and the empty dictionary \<^verbatim>\<open>{}\<close> is the record with every field \<open>None\<close>.
\<close>

record entry_data =
  draft_summary :: "string option"
  entry_type :: "string option"
  user :: "string option"
  description :: "string option"
  acceptance_criteria :: "string option"

definition empty_dict :: entry_data where
  "empty_dict = \<lparr>draft_summary = None, entry_type = None, user = None,
                  description = None, acceptance_criteria = None\<rparr>"

text \<open>
  The regular expressions of the parser. \<^verbatim>\<open>re.search\<close> tries every start position from the
  left; a matcher below is the pattern anchored at the start of its argument and returns what
  the pattern leaves to its right.
\<close>

fun re_search :: "(string \<Rightarrow> 'a option) \<Rightarrow> string \<Rightarrow> 'a option" where
  "re_search m [] = m []"
| "re_search m (c # cs) = (case m (c # cs) of Some r \<Rightarrow> Some r | None \<Rightarrow> re_search m cs)"

text \<open>A literal under \<^verbatim>\<open>re.IGNORECASE\<close>.\<close>

definition ci_prefix :: "string \<Rightarrow> string \<Rightarrow> bool" where
  "ci_prefix lit s = (length lit \<le> length s \<and> lower (take (length lit) s) = lower lit)"

text \<open>The greedy optional group \<^verbatim>\<open>(?:\*\*)?\<close>.\<close>

definition opt_stars :: "string \<Rightarrow> string" where
  "opt_stars s = (if prefix ''**'' s then drop 2 s else s)"

text \<open>
  \<^verbatim>\<open>(?:\*\*)?LABEL(?:\*\*)?\<close> with a label that ends in its colon. When the text starts with
  two stars that the label does not follow, the engine retries without them. After the label
  the two stars are taken when present: what follows in the patterns below matches with them
  taken whenever it matches without.
\<close>

definition match_label :: "string \<Rightarrow> string \<Rightarrow> string option" where
  "match_label label s =
     (if ci_prefix label (opt_stars s) then Some (opt_stars (drop (length label) (opt_stars s)))
      else if ci_prefix label s then Some (opt_stars (drop (length label) s))
      else None)"

text \<open>\<^verbatim>\<open>\s*(.*)\<close> without \<^verbatim>\<open>re.DOTALL\<close>: the rest of the line after any white space.\<close>

definition rest_of_line :: "string \<Rightarrow> string" where
  "rest_of_line s = takeWhile (\<lambda>c. c \<noteq> CHR 0x0A) (dropWhile isspace s)"

text \<open>The lazy group \<^verbatim>\<open>(.*?)\<close> under \<^verbatim>\<open>re.DOTALL\<close>, followed by the pattern \<open>m\<close>.\<close>

fun lazy_until :: "(string \<Rightarrow> 'a option) \<Rightarrow> string \<Rightarrow> string option" where
  "lazy_until m [] = (case m [] of Some r \<Rightarrow> Some [] | None \<Rightarrow> None)"
| "lazy_until m (c # cs) =
     (case m (c # cs) of Some r \<Rightarrow> Some [] | None \<Rightarrow> map_option ((#) c) (lazy_until m cs))"

text \<open>\<^verbatim>\<open>re.split(pattern, s)[0]\<close>: the text before the first match, or all of it.\<close>

fun before_match :: "(string \<Rightarrow> 'a option) \<Rightarrow> string \<Rightarrow> string" where
  "before_match m [] = []"
| "before_match m (c # cs) = (case m (c # cs) of Some r \<Rightarrow> [] | None \<Rightarrow> c # before_match m cs)"

text \<open>\<^verbatim>\<open>(?:\*\*)?Acceptance Criteria(?:\*\*)?:\<close>, where the colon follows the optional stars.\<close>

definition after_ac_label :: "string \<Rightarrow> string option" where
  "after_ac_label s =
     (if ci_prefix ''Acceptance Criteria'' s then
        (let r = drop (length ''Acceptance Criteria'') s
         in if prefix ''**:'' r then Some (drop 3 r)
            else if prefix '':'' r then Some (drop 1 r)
            else None)
      else None)"

definition match_ac :: "string \<Rightarrow> string option" where
  "match_ac s =
     (case after_ac_label (opt_stars s) of Some r \<Rightarrow> Some r | None \<Rightarrow> after_ac_label s)"

definition description_of :: "string \<Rightarrow> string option" where
  "description_of entry_text =
     (case re_search (\<lambda>s. case match_label ''Description:'' s of
                              None \<Rightarrow> None
                            | Some r \<Rightarrow> lazy_until (match_label ''Acceptance Criteria:'') r)
                     entry_text of
        Some g \<Rightarrow> Some (strip g)
      | None \<Rightarrow>
          (case re_search (match_label ''Description:'') entry_text of
             Some g \<Rightarrow>
               Some (strip (before_match
                 (\<lambda>s. if prefix ''\<newline>\<newline>'' s
                       then match_label ''Acceptance Criteria:'' (drop 2 s) else None)
                 (strip g)))
           | None \<Rightarrow> None))"

definition parse_pending_entry :: "string \<Rightarrow> entry_data" where
  "parse_pending_entry entry_text =
     (let data = \<lparr>
            draft_summary =
              map_option (\<lambda>r. strip (rest_of_line r))
                (re_search (match_label ''Draft Summary:'') entry_text),
            entry_type =
              map_option (\<lambda>r. strip (rest_of_line r))
                (re_search (match_label ''Type:'') entry_text),
            user =
              map_option (\<lambda>r. strip (rest_of_line r))
                (re_search (match_label ''User:'') entry_text),
            description = description_of entry_text,
            acceptance_criteria =
              map_option strip (re_search match_ac entry_text)\<rparr>
      in if draft_summary data = None \<or> draft_summary data = Some [] then empty_dict else data)"


section \<open>The operator and the issue tracker\<close>

text \<open>
  The pipeline talks to two collaborators: the operator, through \<^verbatim>\<open>input()\<close>, and Jira,
  through \<^verbatim>\<open>JiraConnector\<close>. The operator is the list of lines still to be read from standard
  input; reading from the exhausted list is \<^verbatim>\<open>EOFError\<close>, which is the result \<open>None\<close> of every
  function below. Every prompt (with the line that answered it), every tracker call (with its
  result) and the warning about an unsupported issue type are appended to a log of events, so
  that a property can speak about what was asked and called, and in which order. Other console
  output is not modelled.
\<close>

record epic_request =
  epic_project_key :: string
  epic_name :: string
  epic_reporter :: string
  epic_assignee :: string
  epic_description :: "string option"
  epic_fix_versions :: "string list option"
  epic_components :: "string list"

text \<open>The \<^verbatim>\<open>issue_dict\<close> that \<^verbatim>\<open>create_jira_issue\<close> hands to \<^verbatim>\<open>client.create_issue\<close>.\<close>

record issue_dict =
  project :: string
  summary :: string
  description_field :: string
  issuetype :: string
  reporter :: string
  assignee :: string
  customfield_10007 :: "string option"

datatype event =
    Asked string string
  | Warned string
  | Got_project_epics string "(string \<times> string) list"
  | Got_project_versions string "(string \<times> string) list"
  | Created_epic epic_request "string option"
  | Got_stories_in_epic string string "(string \<times> string) list"
  | Client_create_issue issue_dict "string option"
  | Client_transitions string "(string \<times> string) list option"
  | Client_transition_issue string string bool

record world =
  stdin :: "string list"
  events :: "event list"

text \<open>
  What Jira answers. An answer may depend on everything that happened before (the events so
  far). \<^verbatim>\<open>get_project_epics\<close>, \<^verbatim>\<open>get_project_versions\<close>, \<^verbatim>\<open>create_jira_epic\<close> and
  \<^verbatim>\<open>get_stories_in_epic\<close> of \<^verbatim>\<open>jira_connector.py\<close> catch every exception themselves and are
  represented by what they return: lists of (key, summary) or (id, name) pairs, and the key of
  the new epic or \<open>None\<close>. \<^verbatim>\<open>create_jira_issue\<close> and \<^verbatim>\<open>transition_jira_issue\<close> are modelled
  below on top of the calls they make to the \<^verbatim>\<open>jira\<close> client, where \<open>None\<close> (for
  \<open>transition_issue\<close>: \<open>False\<close>) stands for a raised exception, also one raised by
  \<^verbatim>\<open>connect()\<close>.
\<close>

record tracker =
  project_epics :: "event list \<Rightarrow> string \<Rightarrow> (string \<times> string) list"
  project_versions :: "event list \<Rightarrow> string \<Rightarrow> (string \<times> string) list"
  new_epic_key :: "event list \<Rightarrow> epic_request \<Rightarrow> string option"
  stories_in_epic :: "event list \<Rightarrow> string \<Rightarrow> string \<Rightarrow> (string \<times> string) list"
  client_create_issue :: "event list \<Rightarrow> issue_dict \<Rightarrow> string option"
  client_transitions :: "event list \<Rightarrow> string \<Rightarrow> (string \<times> string) list option"
  client_transition_issue :: "event list \<Rightarrow> string \<Rightarrow> string \<Rightarrow> bool"

definition record_event :: "event \<Rightarrow> world \<Rightarrow> world" where
  "record_event e w = w\<lparr>events := events w @ [e]\<rparr>"

definition input_py :: "string \<Rightarrow> world \<Rightarrow> (string \<times> world) option" where
  "input_py prompt w =
     (case stdin w of
        [] \<Rightarrow> None
      | l # ls \<Rightarrow> Some (l, w\<lparr>stdin := ls, events := events w @ [Asked prompt l]\<rparr>))"

definition get_user_input :: "string \<Rightarrow> string option \<Rightarrow> world \<Rightarrow> (string \<times> world) option" where
  "get_user_input prompt_message default_value w =
     (case default_value of
        Some d \<Rightarrow>
          do {
            (l, w') \<leftarrow> input_py (prompt_message @ '' (Press Enter to accept: '' @ [CHR 0x27] @ d
                                   @ [CHR 0x27] @ '') ['' @ d @ '']: '') w;
            let user_response = strip l;
            Some (if lower user_response = ''confirm'' then d
                  else if user_response = [] then d else user_response, w')
          }
      | None \<Rightarrow>
          do {
            (l, w') \<leftarrow> input_py (prompt_message @ '': '') w;
            Some (strip l, w')
          })"

definition JIRA_PROJECT_KEY :: string where
  "JIRA_PROJECT_KEY = ''ROIA''"

definition get_project_epics :: "tracker \<Rightarrow> string \<Rightarrow> world \<Rightarrow> (string \<times> string) list \<times> world" where
  "get_project_epics jira project_key w =
     (let r = project_epics jira (events w) project_key
      in (r, record_event (Got_project_epics project_key r) w))"

definition get_project_versions :: "tracker \<Rightarrow> string \<Rightarrow> world \<Rightarrow> (string \<times> string) list \<times> world" where
  "get_project_versions jira project_key w =
     (let r = project_versions jira (events w) project_key
      in (r, record_event (Got_project_versions project_key r) w))"

definition create_jira_epic :: "tracker \<Rightarrow> epic_request \<Rightarrow> world \<Rightarrow> string option \<times> world" where
  "create_jira_epic jira req w =
     (let r = new_epic_key jira (events w) req
      in (r, record_event (Created_epic req r) w))"

definition get_stories_in_epic ::
  "tracker \<Rightarrow> string \<Rightarrow> string \<Rightarrow> world \<Rightarrow> (string \<times> string) list \<times> world" where
  "get_stories_in_epic jira project_key epic_key w =
     (let r = stories_in_epic jira (events w) project_key epic_key
      in (r, record_event (Got_stories_in_epic project_key epic_key r) w))"

text \<open>Python's truth value of an optional string: \<^verbatim>\<open>None\<close> and \<^verbatim>\<open>''\<close> are false.\<close>

definition truthy :: "string option \<Rightarrow> bool" where
  "truthy x = (case x of None \<Rightarrow> False | Some s \<Rightarrow> s \<noteq> [])"

text \<open>
  \<^verbatim>\<open>JiraConnector.create_jira_issue\<close>. The parameter \<^verbatim>\<open>issue_type\<close> is the method's last one,
  with the default \<^verbatim>\<open>"Story"\<close>; \<^verbatim>\<open>issue_type_name\<close> is used in log messages only.
\<close>

definition create_jira_issue ::
  "tracker \<Rightarrow> string \<Rightarrow> string \<Rightarrow> string \<Rightarrow> string \<Rightarrow> string \<Rightarrow> string \<Rightarrow> string option \<Rightarrow> string
     \<Rightarrow> world \<Rightarrow> string option \<times> world" where
  "create_jira_issue jira project_key summary_text issue_type_name description_body
       reporter_username assignee_username epic_link_key issue_type w =
     (let fields = \<lparr>project = project_key, summary = summary_text,
                     description_field = description_body, issuetype = issue_type,
                     reporter = reporter_username, assignee = assignee_username,
                     customfield_10007 = (if truthy epic_link_key then epic_link_key else None)\<rparr>;
          r = client_create_issue jira (events w) fields
      in (r, record_event (Client_create_issue fields r) w))"

text \<open>
  \<^verbatim>\<open>JiraConnector.transition_jira_issue\<close>: the first transition whose name contains the target
  status name, both in lower case, is executed.
\<close>

definition transition_jira_issue :: "tracker \<Rightarrow> string \<Rightarrow> string \<Rightarrow> world \<Rightarrow> bool \<times> world" where
  "transition_jira_issue jira issue_key target_status_name w =
     (let ts = client_transitions jira (events w) issue_key;
          w1 = record_event (Client_transitions issue_key ts) w
      in case ts of
           None \<Rightarrow> (False, w1)
         | Some transitions \<Rightarrow>
             (case find (\<lambda>t. contains (lower (snd t)) (lower target_status_name)) transitions of
                None \<Rightarrow> (False, w1)
              | Some t \<Rightarrow>
                  if fst t \<noteq> [] then
                    (let ok = client_transition_issue jira (events w1) issue_key (fst t)
                     in (ok, record_event (Client_transition_issue issue_key (fst t) ok) w1))
                  else (False, w1)))"


section \<open>\<^verbatim>\<open>process_single_entry\<close>\<close>

lemma input_py_shorter:
  "input_py prompt w = Some (l, w') \<Longrightarrow> length (stdin w') < length (stdin w)"
  by (auto simp: input_py_def split: list.splits)

lemma get_user_input_shorter:
  "get_user_input prompt_message default_value w = Some (r, w')
     \<Longrightarrow> length (stdin w') < length (stdin w)"
proof (cases default_value)
  case None
  assume "get_user_input prompt_message default_value w = Some (r, w')"
  with None obtain l where "input_py (prompt_message @ '': '') w = Some (l, w')"
    by (auto simp: get_user_input_def split: Option.bind_splits)
  then show ?thesis by (rule input_py_shorter)
next
  case (Some d)
  assume "get_user_input prompt_message default_value w = Some (r, w')"
  with Some obtain p l where "input_py p w = Some (l, w')"
    by (auto simp: get_user_input_def Let_def split: Option.bind_splits)
  then show ?thesis by (rule input_py_shorter)
qed

text \<open>The prompts of epic handling.\<close>

definition fix_versions_prompt :: string where
  "fix_versions_prompt =
     ''Select Fix Version(s) by number for the new Epic (comma-separated, or type ''
       @ [CHR 0x27] @ ''none'' @ [CHR 0x27] @ ''): ''"

definition fix_versions_input_prompt :: string where
  "fix_versions_input_prompt =
     ''Enter Fix Version/s for the new Epic (comma-separated if multiple, leave blank if none): ''"

definition epic_name_prompt :: string where
  "epic_name_prompt = ''Enter the name for the new Epic''"

definition epic_description_prompt :: string where
  "epic_description_prompt =
     ''Enter an optional description for the new Epic (leave blank if none)''"

definition select_epic_prompt :: string where
  "select_epic_prompt =
     ''Select an Epic by number or type '' @ [CHR 0x27] @ ''N'' @ [CHR 0x27]
       @ '' for new (Press Enter for N, or '' @ [CHR 0x27] @ ''none'' @ [CHR 0x27]
       @ '' to skip linking an Epic)''"

definition no_epics_prompt :: string where
  "no_epics_prompt = ''No Epics found. Create a new Epic? (yes/no)''"

text \<open>
  The selection of fix versions for a new epic (the inner \<^verbatim>\<open>while True\<close>). A selection that
  \<^verbatim>\<open>int()\<close> rejects, or that holds an index outside the list, is asked for again.
\<close>

function select_fix_versions ::
  "(string \<times> string) list \<Rightarrow> world \<Rightarrow> (string list option \<times> world) option" where
  "select_fix_versions available_versions w =
     do {
       (r, w1) \<leftarrow> get_user_input fix_versions_prompt None w;
       let version_selection_str = lower r;
       if version_selection_str = [] \<or> version_selection_str = ''none'' then Some (None, w1)
       else
         (case those (map (\<lambda>x. int_py (strip x)) (split_py version_selection_str '','')) of
            None \<Rightarrow> select_fix_versions available_versions w1
          | Some ns \<Rightarrow>
              let selected_indices = map (\<lambda>n. n - 1) ns
              in if list_all (\<lambda>index. 0 \<le> index \<and> index < int (length available_versions))
                      selected_indices
                 then Some (Some (map (\<lambda>index. snd (available_versions ! nat index))
                                    selected_indices), w1)
                 else select_fix_versions available_versions w1)
     }"
  by pat_completeness auto
termination
  by (relation "measure (\<lambda>(vs, w). length (stdin w))") (auto dest: get_user_input_shorter)

declare select_fix_versions.simps [simp del]

text \<open>The branch \<^verbatim>\<open>choice == 'N'\<close>: a new epic is created and selected.\<close>

definition create_new_epic ::
  "tracker \<Rightarrow> string \<Rightarrow> world \<Rightarrow> ((string option \<times> string) \<times> world) option" where
  "create_new_epic jira reporter_assignee w =
     do {
       (new_epic_name, w1) \<leftarrow> get_user_input epic_name_prompt None w;
       if new_epic_name = [] then Some ((None, ''N/A''), w1)
       else
         do {
           (new_epic_desc, w2) \<leftarrow> get_user_input epic_description_prompt None w1;
           let (available_versions, w3) = get_project_versions jira JIRA_PROJECT_KEY w2;
           (new_epic_fix_versions, w4) \<leftarrow>
             (if available_versions \<noteq> [] then select_fix_versions available_versions w3
              else
                do {
                  (fix_versions_input_str, w') \<leftarrow>
                    get_user_input fix_versions_input_prompt None w3;
                  Some (if fix_versions_input_str \<noteq> []
                        then Some (map strip (filter (\<lambda>fv. strip fv \<noteq> [])
                                     (split_py fix_versions_input_str '','')))
                        else None, w')
                });
           let (created_epic_key, w5) = create_jira_epic jira
                 \<lparr>epic_project_key = JIRA_PROJECT_KEY, epic_name = new_epic_name,
                  epic_reporter = reporter_assignee, epic_assignee = reporter_assignee,
                  epic_description = (if new_epic_desc \<noteq> [] then Some new_epic_desc else None),
                  epic_fix_versions = new_epic_fix_versions,
                  epic_components = [''FeatureCentral'']\<rparr> w4;
           Some (if truthy created_epic_key then (created_epic_key, new_epic_name)
                 else (None, ''N/A''), w5)
         }
     }"

text \<open>The selection among the existing epics (the outer \<^verbatim>\<open>while True\<close>).\<close>

function select_epic ::
  "tracker \<Rightarrow> string \<Rightarrow> (string \<times> string) list \<Rightarrow> world
     \<Rightarrow> ((string option \<times> string) \<times> world) option" where
  "select_epic jira reporter_assignee epics w =
     do {
       (r, w1) \<leftarrow> get_user_input select_epic_prompt (Some ''N'') w;
       let choice = upper r;
       if choice = ''N'' then create_new_epic jira reporter_assignee w1
       else if lower choice = ''none'' then Some ((None, ''N/A''), w1)
       else
         (case int_py choice of
            None \<Rightarrow> select_epic jira reporter_assignee epics w1
          | Some n \<Rightarrow>
              let epic_index = n - 1
              in if 0 \<le> epic_index \<and> epic_index < int (length epics)
                 then Some ((Some (fst (epics ! nat epic_index)),
                             snd (epics ! nat epic_index)), w1)
                 else select_epic jira reporter_assignee epics w1)
     }"
  by pat_completeness auto
termination
  by (relation "measure (\<lambda>(jira, u, epics, w). length (stdin w))")
     (auto dest: get_user_input_shorter)

declare select_epic.simps [simp del]

text \<open>
  Epic handling. The connector raises nothing, so the only exception inside the
  \<^verbatim>\<open>try\<close> block is the \<^verbatim>\<open>EOFError\<close> of \<^verbatim>\<open>input()\<close>; its handler asks the operator again,
  on the same exhausted input, and the error leaves \<^verbatim>\<open>process_single_entry\<close>. The result
  is the selected epic key and epic name.
\<close>

definition epic_handling ::
  "tracker \<Rightarrow> string \<Rightarrow> world \<Rightarrow> ((string option \<times> string) \<times> world) option" where
  "epic_handling jira reporter_assignee w =
     (let (epics, w1) = get_project_epics jira JIRA_PROJECT_KEY w
      in if epics \<noteq> [] then select_epic jira reporter_assignee epics w1
         else
           do {
             (a, w2) \<leftarrow> get_user_input no_epics_prompt (Some ''yes'') w1;
             if lower a = ''yes'' then
               do {
                 (new_epic_name, w3) \<leftarrow> get_user_input epic_name_prompt None w2;
                 if new_epic_name \<noteq> [] then
                   do {
                     (new_epic_desc, w4) \<leftarrow> get_user_input epic_description_prompt None w3;
                     let (created_epic_key, w5) = create_jira_epic jira
                           \<lparr>epic_project_key = JIRA_PROJECT_KEY, epic_name = new_epic_name,
                            epic_reporter = reporter_assignee, epic_assignee = reporter_assignee,
                            epic_description = Some new_epic_desc,
                            epic_fix_versions = None,
                            epic_components = [''FeatureCentral'']\<rparr> w4;
                     Some (if truthy created_epic_key then (created_epic_key, new_epic_name)
                           else (None, ''N/A''), w5)
                   }
                 else Some ((None, ''N/A''), w3)
               }
             else Some ((None, ''N/A''), w2)
           })"

text \<open>
  The duplicate check. The result says whether the entry goes on to creation. An
  \<^verbatim>\<open>EOFError\<close> at the prompt is caught, the handler prompts once more and the error leaves
  the function.
\<close>

definition duplicate_summaries :: "(string \<times> string) list \<Rightarrow> string \<Rightarrow> string list" where
  "duplicate_summaries existing_issues_in_epic final_summary =
     map snd (filter (\<lambda>s. lower (snd s) = lower final_summary) existing_issues_in_epic)"

definition duplicate_prompt :: "string \<Rightarrow> string" where
  "duplicate_prompt issue_type =
     ''Still want to create a new '' @ issue_type @ '' with this summary? (yes/no)''"

definition duplicate_check ::
  "tracker \<Rightarrow> string option \<Rightarrow> string \<Rightarrow> string \<Rightarrow> world \<Rightarrow> (bool \<times> world) option" where
  "duplicate_check jira selected_epic_key issue_type final_summary w =
     (case selected_epic_key of
        None \<Rightarrow> Some (True, w)
      | Some k \<Rightarrow>
          if k = [] then Some (True, w)
          else
            (let (existing_issues_in_epic, w1) = get_stories_in_epic jira JIRA_PROJECT_KEY k w
             in if existing_issues_in_epic \<noteq> [] then
                  (if duplicate_summaries existing_issues_in_epic final_summary \<noteq> [] then
                     do {
                       (a, w2) \<leftarrow> get_user_input (duplicate_prompt issue_type) (Some ''no'') w1;
                       Some (lower a = ''yes'', w2)
                     }
                   else Some (True, w1))
                else Some (True, w1)))"

text \<open>The record of a committed entry and its text in the committed changelog.\<close>

record committed_record =
  rec_epic_name :: string
  rec_epic_key :: "string option"
  rec_issue_type :: string
  rec_issue_key :: string
  rec_summary :: string
  rec_status :: string
  rec_description :: string
  rec_acceptance_criteria :: string

definition committed_entry_str :: "committed_record \<Rightarrow> string" where
  "committed_entry_str r =
     ''## Epic: '' @ rec_epic_name r @ '' [''
       @ (case rec_epic_key r of None \<Rightarrow> ''N/A'' | Some k \<Rightarrow> if k = [] then ''N/A'' else k)
       @ '']\<newline>\<newline>### '' @ rec_issue_type r @ '': '' @ rec_issue_key r @ '' - ''
       @ rec_summary r @ '' (Status: '' @ rec_status r @ '')\<newline>\<newline>**Description:**\<newline>''
       @ rec_description r @ ''\<newline>\<newline>## Acceptance Criteria\<newline>''
       @ rec_acceptance_criteria r @ ''\<newline>---\<newline>''"

text \<open>The issue type of an entry: \<^verbatim>\<open>Story\<close> or \<^verbatim>\<open>Bug\<close>, with a warning for anything else.\<close>

definition determine_issue_type :: "entry_data \<Rightarrow> string \<Rightarrow> world \<Rightarrow> string \<times> world" where
  "determine_issue_type entry final_summary w =
     (let issue_type = capitalize (case entry_type entry of None \<Rightarrow> ''Story'' | Some t \<Rightarrow> t)
      in if issue_type \<notin> set [''Story'', ''Bug''] then
           (''Story'',
            record_event (Warned (''Unsupported issue type '' @ [CHR 0x27] @ issue_type
               @ [CHR 0x27] @ '' found for entry '' @ [CHR 0x27] @ final_summary @ [CHR 0x27]
               @ ''. Defaulting to '' @ [CHR 0x27] @ ''Story'' @ [CHR 0x27] @ ''.'')) w)
         else (issue_type, w))"

text \<open>
  Creation and transition (from ``Actual Jira Issue Creation'' to the end of the function).
  The call passes \<^verbatim>\<open>issue_type_name=issue_type\<close> and leaves the connector's own parameter
  \<^verbatim>\<open>issue_type\<close> at its default.
\<close>

definition create_and_transition ::
  "tracker \<Rightarrow> string \<Rightarrow> string \<Rightarrow> string \<Rightarrow> string \<Rightarrow> string \<Rightarrow> string option \<Rightarrow> string
     \<Rightarrow> world \<Rightarrow> (bool \<times> string option) \<times> world" where
  "create_and_transition jira reporter_assignee issue_type final_summary final_description
       final_ac_str selected_epic_key selected_epic_name w =
     (let jira_description_body =
            final_description @ ''\<newline>\<newline>## Acceptance Criteria\<newline>'' @ final_ac_str;
          (new_issue_key, w1) = create_jira_issue jira JIRA_PROJECT_KEY final_summary issue_type
            jira_description_body reporter_assignee reporter_assignee selected_epic_key
            ''Story'' w
      in case new_issue_key of
           None \<Rightarrow> ((False, None), w1)
         | Some key \<Rightarrow>
             if key = [] then ((False, None), w1)
             else
               (let target_final_status = ''Done'';
                    (transition_success, w2) = transition_jira_issue jira key target_final_status w1;
                    current_story_status_for_changelog =
                      (if transition_success then target_final_status else ''Open'')
                in ((True, Some (committed_entry_str
                       \<lparr>rec_epic_name = selected_epic_name, rec_epic_key = selected_epic_key,
                        rec_issue_type = issue_type, rec_issue_key = key,
                        rec_summary = final_summary,
                        rec_status = current_story_status_for_changelog,
                        rec_description = final_description,
                        rec_acceptance_criteria = final_ac_str\<rparr>)), w2)))"

definition confirm_prompt :: "string \<Rightarrow> string \<Rightarrow> string" where
  "confirm_prompt issue_type final_summary =
     ''\<newline>Proceed with creating this '' @ issue_type @ '' ('' @ [CHR 0x27] @ final_summary
       @ [CHR 0x27] @ '') in Jira? (yes/no/skip)''"

text \<open>
  The results are those of the source: \<open>(True, Some text)\<close> for a created issue,
  \<open>(False, Some ''skipped'')\<close> when the operator skips, \<open>(False, None)\<close> for a failure.
\<close>

definition final_summary :: "entry_data \<Rightarrow> string" where
  "final_summary entry =
     (case draft_summary entry of None \<Rightarrow> ''No summary provided'' | Some t \<Rightarrow> t)"

definition final_description :: "entry_data \<Rightarrow> string" where
  "final_description entry =
     (case description entry of None \<Rightarrow> ''Description to be added.'' | Some t \<Rightarrow> t)"

definition final_ac_str :: "entry_data \<Rightarrow> string" where
  "final_ac_str entry =
     (case acceptance_criteria entry of
        None \<Rightarrow> ''- Acceptance criteria to be added.'' | Some t \<Rightarrow> t)"

definition process_single_entry ::
  "entry_data \<Rightarrow> tracker \<Rightarrow> string \<Rightarrow> world \<Rightarrow> ((bool \<times> string option) \<times> world) option" where
  "process_single_entry entry jira reporter_assignee w =
     (if final_summary entry = [] then Some ((False, Some ''skipped''), w)
      else
        (let (issue_type, w0) = determine_issue_type entry (final_summary entry) w
         in do {
              (a, w1) \<leftarrow> get_user_input (confirm_prompt issue_type (final_summary entry))
                           (Some ''yes'') w0;
              let proceed_with_creation = lower a;
              if proceed_with_creation = ''skip'' then Some ((False, Some ''skipped''), w1)
              else if proceed_with_creation \<noteq> ''yes'' then Some ((False, Some ''skipped''), w1)
              else
                do {
                  ((selected_epic_key, selected_epic_name), w2) \<leftarrow>
                    epic_handling jira reporter_assignee w1;
                  (go_on, w3) \<leftarrow>
                    duplicate_check jira selected_epic_key issue_type (final_summary entry) w2;
                  if \<not> go_on then Some ((False, Some ''skipped''), w3)
                  else Some (create_and_transition jira reporter_assignee issue_type
                               (final_summary entry) (final_description entry)
                               (final_ac_str entry) selected_epic_key selected_epic_name w3)
                }
            }))"


section \<open>\<^verbatim>\<open>main\<close>: the pending log, the loop over the entries, the two logs written back\<close>

definition ENTRY_SEPARATOR :: string where
  "ENTRY_SEPARATOR = ''---\<newline>''"

definition TEMPLATE_END_MARKER :: string where
  "TEMPLATE_END_MARKER = ''<!-- END TEMPLATE -->''"

text \<open>The loop that moves \<^verbatim>\<open>end_of_template_block\<close> over the newlines after the marker.\<close>

function skip_newlines :: "string \<Rightarrow> nat \<Rightarrow> nat" where
  "skip_newlines content i =
     (if i < length content \<and> content ! i = CHR 0x0A then skip_newlines content (i + 1) else i)"
  by pat_completeness auto
termination
  by (relation "measure (\<lambda>(content, i). length content - i)") auto

declare skip_newlines.simps [simp del]

text \<open>The template partition: \<open>(template_section, processed_content)\<close>.\<close>

definition partition_template :: "string \<Rightarrow> string \<times> string" where
  "partition_template content =
     (case find_py content TEMPLATE_END_MARKER of
        None \<Rightarrow> ([], content)
      | Some template_end_idx \<Rightarrow>
          (case find_from content ENTRY_SEPARATOR
                  (template_end_idx + length TEMPLATE_END_MARKER) of
             Some first_entry_sep_after_template_idx \<Rightarrow>
               (take (first_entry_sep_after_template_idx + length ENTRY_SEPARATOR) content,
                drop (first_entry_sep_after_template_idx + length ENTRY_SEPARATOR) content)
           | None \<Rightarrow>
               (let end_of_template_block =
                      skip_newlines content (template_end_idx + length TEMPLATE_END_MARKER);
                    template_section = take end_of_template_block content
                in (if endswith template_section ''\<newline>'' then template_section
                    else template_section @ ''\<newline>'',
                    drop end_of_template_block content))))"

definition pending_entry_texts :: "string \<Rightarrow> string list" where
  "pending_entry_texts processed_content =
     map strip (filter (\<lambda>entry. strip entry \<noteq> []) (split_py processed_content ENTRY_SEPARATOR))"

text \<open>
  The loop over the entries. Its state is the two lists of the source and the world:
  \<^verbatim>\<open>processed_successfully_texts\<close> holds the text of an entry that was committed and
  \<open>None\<close> for one that stays, \<^verbatim>\<open>all_committed_entries_text\<close> the new records.
\<close>

fun entry_loop ::
  "tracker \<Rightarrow> string \<Rightarrow> string list \<Rightarrow> string option list \<times> string list \<times> world
     \<Rightarrow> (string option list \<times> string list \<times> world) option" where
  "entry_loop jira username [] st = Some st"
| "entry_loop jira username (entry_text # rest) (processed, all_committed, w) =
     (if strip entry_text = [] then entry_loop jira username rest (processed, all_committed, w)
      else
        (let entry = parse_pending_entry entry_text
         in if entry = empty_dict then
              entry_loop jira username rest (processed @ [None], all_committed, w)
            else
              do {
                ((success, result_data), w') \<leftarrow> process_single_entry entry jira username w;
                if success then
                  entry_loop jira username rest
                    (processed @ [Some entry_text],
                     (if truthy result_data \<and> result_data \<noteq> Some ''skipped''
                      then all_committed @ [the result_data] else all_committed), w')
                else entry_loop jira username rest (processed @ [None], all_committed, w')
              }))"

definition remaining_pending_texts :: "string list \<Rightarrow> string option list \<Rightarrow> string list" where
  "remaining_pending_texts entries processed =
     map snd (filter (\<lambda>(i, entry_text).
                 (i < length processed \<and> processed ! i = None) \<or> length processed \<le> i)
               (enumerate 0 entries))"

text \<open>The template that \<^verbatim>\<open>main\<close> writes when the pending log does not exist.\<close>

definition template_body :: "string \<Rightarrow> string" where
  "template_body selected_user_name =
     ''# **Draft Summary:** My New Feature for '' @ selected_user_name @ ''\<newline>''
     @ ''# **Type:** Story\<newline>''
     @ ''# **User:** '' @ selected_user_name @ ''\<newline>''
     @ ''# **Description:**\<newline>''
     @ ''# As a user, I want this feature so that I can achieve a goal.\<newline>#\<newline>''
     @ ''# **Acceptance Criteria:**\<newline>''
     @ ''# - Criteria 1\<newline>''
     @ ''# - Criteria 2\<newline>''"

definition template_head :: "string \<Rightarrow> string" where
  "template_head selected_user_name =
     ''# Add '' @ selected_user_name @ [CHR 0x27]
     @ ''s pending changelog entries here, separated by '' @ [CHR 0x27] @ strip ENTRY_SEPARATOR
     @ [CHR 0x27] @ ''\<newline>''
     @ ''# Template for '' @ selected_user_name @ '':\<newline>''
     @ ''<!-- TEMPLATE - DO NOT PROCESS -->\<newline>''
     @ ENTRY_SEPARATOR @ ''\<newline>''"

definition initial_template :: "string \<Rightarrow> string" where
  "initial_template selected_user_name =
     template_head selected_user_name @ template_body selected_user_name
     @ ''# '' @ ENTRY_SEPARATOR @ ''<!-- END TEMPLATE -->\<newline>''"

text \<open>The fresh template of the first rewrite (no template and no remaining entries).\<close>

definition fresh_template :: "string \<Rightarrow> string" where
  "fresh_template selected_user_name =
     template_head selected_user_name @ template_body selected_user_name
     @ ENTRY_SEPARATOR @ ''<!-- END TEMPLATE -->\<newline>''"

text \<open>What the first \<^verbatim>\<open>with open(PENDING_FILE_PATH, "w")\<close> block writes.\<close>

definition first_rewrite :: "string \<Rightarrow> string \<Rightarrow> string list \<Rightarrow> string" where
  "first_rewrite selected_user_name template_section remaining =
     (if template_section \<noteq> [] then
        template_section
        @ (if remaining \<noteq> [] \<and> \<not> endswith (strip template_section) ''\<newline>''
              \<and> \<not> endswith (strip template_section) (strip ENTRY_SEPARATOR)
           then (if \<not> endswith template_section ''\<newline>'' then ''\<newline>'' else [])
           else [])
      else [])
     @ (if remaining \<noteq> [] then
          (let full_remaining_content = join_py ENTRY_SEPARATOR remaining
           in if \<not> endswith full_remaining_content ENTRY_SEPARATOR
              then full_remaining_content @ ENTRY_SEPARATOR else full_remaining_content)
        else if template_section = [] then fresh_template selected_user_name
        else [])"

text \<open>
  What the second \<^verbatim>\<open>with open(PENDING_FILE_PATH, "w")\<close> block writes. \<^verbatim>\<open>f_pending.tell()\<close> is
  the number of characters written so far.
\<close>

definition second_rewrite :: "string \<Rightarrow> string list \<Rightarrow> string" where
  "second_rewrite template_section remaining =
     template_section
     @ (if remaining \<noteq> [] then
          join_py ENTRY_SEPARATOR remaining
          @ (if \<not> (length (template_section @ join_py ENTRY_SEPARATOR remaining)
                    = length template_section)
             then (let current_written_content = join_py ENTRY_SEPARATOR remaining
                   in if \<not> endswith current_written_content (strip ENTRY_SEPARATOR)
                      then ENTRY_SEPARATOR else [])
             else [])
        else if strip template_section \<noteq> [] then
          (if \<not> endswith template_section ''\<newline>'' then ''\<newline>'' else [])
          @ ''# No pending entries remaining.\<newline>''
        else ''# No pending entries remaining.\<newline>'')"

text \<open>
  The two files. \<open>None\<close> is a file that does not exist. \<open>opened\<close> lists every \<^verbatim>\<open>open()\<close>
  in order. \<open>pending_states\<close> lists the contents the pending log passes through:
  \<^verbatim>\<open>open(path, "w")\<close> truncates the file at once, and what the block writes is in the file
  when the block is left.
\<close>

datatype path = PENDING_FILE_PATH | COMMITTED_FILE_PATH

datatype mode = Mode_r | Mode_w | Mode_a

record files =
  pending_file :: "string option"
  committed_file :: "string option"
  opened :: "(path \<times> mode) list"
  pending_states :: "string list"

definition read_pending :: "files \<Rightarrow> files" where
  "read_pending fs = fs\<lparr>opened := opened fs @ [(PENDING_FILE_PATH, Mode_r)]\<rparr>"

definition write_pending :: "string \<Rightarrow> files \<Rightarrow> files" where
  "write_pending text fs =
     fs\<lparr>pending_file := Some text,
        opened := opened fs @ [(PENDING_FILE_PATH, Mode_w)],
        pending_states := pending_states fs @ [[], text]\<rparr>"

definition append_committed :: "string \<Rightarrow> files \<Rightarrow> files" where
  "append_committed text fs =
     fs\<lparr>committed_file := Some ((case committed_file fs of None \<Rightarrow> [] | Some old \<Rightarrow> old) @ text),
        opened := opened fs @ [(COMMITTED_FILE_PATH, Mode_a)]\<rparr>"

text \<open>The environment variables \<^verbatim>\<open>Jira\<close> (the API token) and \<^verbatim>\<open>JIRA_USERNAME\<close>.\<close>

record env =
  env_Jira :: "string option"
  env_JIRA_USERNAME :: "string option"

datatype run_status = Created_template | No_entries | Connector_failed | Aborted | Finished

text \<open>
  The outcome of a run: how it ended, the files and the world after it, and the values of the
  variables \<^verbatim>\<open>template_section\<close>, \<^verbatim>\<open>pending_entry_texts\<close>, \<^verbatim>\<open>processed_successfully_texts\<close>,
  \<^verbatim>\<open>all_committed_entries_text\<close> and \<^verbatim>\<open>remaining_pending_texts\<close> of \<^verbatim>\<open>main\<close> (the empty list
  for one that was never assigned, or whose value is lost with the run).
\<close>

record outcome =
  status :: run_status
  files_after :: files
  world_after :: world
  template :: string
  entries :: "string list"
  processed :: "string option list"
  all_committed :: "string list"
  remaining :: "string list"

definition username_prompt :: "string \<Rightarrow> string" where
  "username_prompt default_username =
     ''Enter Jira username for Reporter/Assignee ['' @ default_username @ '']: ''"

definition default_username :: "env \<Rightarrow> string" where
  "default_username e = (case env_JIRA_USERNAME e of None \<Rightarrow> ''default_user'' | Some u \<Rightarrow> u)"

text \<open>The prompt for the Jira user name, which precedes the loop: \<open>(username, world)\<close>.\<close>

definition loop_start :: "env \<Rightarrow> world \<Rightarrow> (string \<times> world) option" where
  "loop_start e w =
     do {
       (l, w1) \<leftarrow> input_py (username_prompt (default_username e)) w;
       Some (if strip l = [] then default_username e else strip l, w1)
     }"

text \<open>Both logs are written after the loop: the committed log, then the pending log twice.\<close>

definition write_back ::
  "string \<Rightarrow> string \<Rightarrow> string list \<Rightarrow> string list \<Rightarrow> files \<Rightarrow> files" where
  "write_back selected_user_name template_section remaining_texts all_committed_entries_text fs =
     (let fs2 = (if all_committed_entries_text \<noteq> [] then
                   append_committed
                     (concat (map (\<lambda>c. c @ ''\<newline>'') all_committed_entries_text)) fs
                 else fs);
          fs3 = write_pending
                  (first_rewrite selected_user_name template_section remaining_texts) fs2
      in write_pending (second_rewrite template_section remaining_texts) fs3)"

text \<open>
  \<^verbatim>\<open>main\<close> from the point where the user whose changelog is processed has been selected.
  The statuses are: the pending log did not exist and was created; it holds no entries; the
  connector could not be set up (no API token); \<^verbatim>\<open>input()\<close> raised \<^verbatim>\<open>EOFError\<close>, which nothing
  catches, before any file is written (what the tracker was asked to do until then is not
  kept in \<open>world_after\<close>); the run reached its end.
\<close>

definition main :: "string \<Rightarrow> env \<Rightarrow> tracker \<Rightarrow> files \<Rightarrow> world \<Rightarrow> outcome" where
  "main selected_user_name e jira fs w =
     (case pending_file fs of
        None \<Rightarrow>
          \<lparr>status = Created_template,
           files_after = write_pending (initial_template selected_user_name) fs,
           world_after = w, template = [], entries = [], processed = [],
           all_committed = [], remaining = []\<rparr>
      | Some content \<Rightarrow>
          (let fs1 = read_pending (read_pending fs);
               (template_section, processed_content) = partition_template content;
               texts = pending_entry_texts processed_content;
               early = \<lparr>status = No_entries, files_after = fs1, world_after = w,
                        template = template_section, entries = texts, processed = [],
                        all_committed = [], remaining = []\<rparr>
           in if texts = [] then early
              else if \<not> truthy (env_Jira e) then early\<lparr>status := Connector_failed\<rparr>
              else
                (case loop_start e w of
                   None \<Rightarrow> early\<lparr>status := Aborted\<rparr>
                 | Some (username, w1) \<Rightarrow>
                     (case entry_loop jira username texts ([], [], w1) of
                        None \<Rightarrow> early\<lparr>status := Aborted\<rparr>
                      | Some (processed_texts, committed_texts, w2) \<Rightarrow>
                          (let remaining_texts = remaining_pending_texts texts processed_texts
                           in \<lparr>status = Finished,
                               files_after = write_back selected_user_name template_section
                                               remaining_texts committed_texts fs1,
                               world_after = w2, template = template_section,
                               entries = texts, processed = processed_texts,
                               all_committed = committed_texts,
                               remaining = remaining_texts\<rparr>)))))"

section \<open>Code equations for evaluation\<close>

text \<open>
  The case mappings on the bits of a character (the letters A-Z are the codes 65 to 90, that
  is \<open>010xxxxx\<close> with \<open>xxxxx\<close> from 1 to 26, and a-z the same with bit 5 set), and the
  case-insensitive literal compared character by character.
\<close>

lemma lower_char_code [code]:
  "lower_char (Char b0 b1 b2 b3 b4 b5 b6 b7) =
     (if \<not> b7 \<and> b6 \<and> \<not> b5 \<and> (b0 \<or> b1 \<or> b2 \<or> b3 \<or> b4) \<and> \<not> (b4 \<and> b3 \<and> (b2 \<or> b1 \<and> b0))
      then Char b0 b1 b2 b3 b4 True b6 b7 else Char b0 b1 b2 b3 b4 b5 b6 b7)"
  by (cases b0; cases b1; cases b2; cases b3; cases b4; cases b5; cases b6; cases b7;
      simp add: lower_char_def ascii_uppercase_def ascii_lowercase_def)

lemma upper_char_code [code]:
  "upper_char (Char b0 b1 b2 b3 b4 b5 b6 b7) =
     (if \<not> b7 \<and> b6 \<and> b5 \<and> (b0 \<or> b1 \<or> b2 \<or> b3 \<or> b4) \<and> \<not> (b4 \<and> b3 \<and> (b2 \<or> b1 \<and> b0))
      then Char b0 b1 b2 b3 b4 False b6 b7 else Char b0 b1 b2 b3 b4 b5 b6 b7)"
  by (cases b0; cases b1; cases b2; cases b3; cases b4; cases b5; cases b6; cases b7;
      simp add: upper_char_def ascii_uppercase_def ascii_lowercase_def)

lemma ci_prefix_code [code]:
  "ci_prefix [] s = True"
  "ci_prefix (l # ls) [] = False"
  "ci_prefix (l # ls) (c # cs) = (if lower_char l = lower_char c then ci_prefix ls cs else False)"
  by (auto simp: ci_prefix_def lower_def)

section \<open>A tracker, a pending log and an environment to run the pipeline on\<close>

text \<open>
  The tracker has one epic with two stories under it, refuses to create the issue
  ``Fix crash'', and offers a transition to a status like ``Done'' for every issue but
  \<^verbatim>\<open>ROIA-9\<close>. The pending log has a template and three blocks; the last block has no
  title and ends the file with a separator line that lacks its newline.
\<close>

definition example_tracker :: tracker where
  "example_tracker =
     \<lparr>project_epics = (\<lambda>h p. [(''ROIA-1'', ''Exports'')]),
      project_versions = (\<lambda>h p. []),
      new_epic_key = (\<lambda>h r. None),
      stories_in_epic = (\<lambda>h p k. [(''ROIA-2'', ''add csv EXPORT''), (''ROIA-3'', ''Other'')]),
      client_create_issue =
        (\<lambda>h f. if summary f = ''Fix crash'' then None
               else if summary f = ''Add CSV export'' then Some ''ROIA-9''
               else Some ''ROIA-10''),
      client_transitions =
        (\<lambda>h k. if k = ''ROIA-9'' then Some [(''11'', ''Start Progress''), (''21'', ''Wont Do'')]
               else Some [(''11'', ''Start Progress''), (''31'', ''Mark as DONE'')]),
      client_transition_issue = (\<lambda>h k i. True)\<rparr>"

definition example_env :: env where
  "example_env = \<lparr>env_Jira = Some ''token'', env_JIRA_USERNAME = None\<rparr>"

definition example_pending :: string where
  "example_pending =
     ''<!-- END TEMPLATE -->\<newline>---\<newline>\<newline>**Draft Summary:** Add CSV export\<newline>**Type:** Story\<newline>---\<newline>Draft Summary: Fix crash\<newline>Type: bug\<newline>---\<newline>no title\<newline>---''"

definition example_files :: files where
  "example_files =
     \<lparr>pending_file = Some example_pending, committed_file = None, opened = [],
      pending_states = []\<rparr>"

definition example_world :: "string list \<Rightarrow> world" where
  "example_world lines = \<lparr>stdin = lines, events = []\<rparr>"

text \<open>
  Three runs on it. In the first the operator accepts the default user name and creates
  both issues without an epic; in the second the operator declines both entries; in the
  third the operator files the first entry under the epic and declines at the duplicate
  prompt.
\<close>

definition example_run :: outcome where
  "example_run =
     main ''Amy'' example_env example_tracker example_files
       (example_world ['''', ''yes'', ''none'', ''yes'', ''none''])"

definition declined_run :: outcome where
  "declined_run =
     main ''Amy'' example_env example_tracker example_files
       (example_world ['''', ''no'', ''skip''])"


text \<open>A pending log without a template whose only entry is committed.\<close>

definition bare_files :: files where
  "bare_files =
     \<lparr>pending_file = Some ''Draft Summary: Add CSV export'', committed_file = None,
      opened = [], pending_states = []\<rparr>"

definition bare_run :: outcome where
  "bare_run =
     main ''Amy'' example_env example_tracker bare_files
       (example_world ['''', ''yes'', ''none''])"

text \<open>A pending log whose only entry is a bug, and the fields of an issue without epic.\<close>

definition bug_files :: files where
  "bug_files =
     \<lparr>pending_file = Some ''Draft Summary: Crash on save\<newline>Type: bug'', committed_file = None,
      opened = [], pending_states = []\<rparr>"

definition bug_run :: outcome where
  "bug_run =
     main ''Amy'' example_env example_tracker bug_files
       (example_world ['''', ''yes'', ''none''])"


section \<open>Facts about the string operations, the loop and the files\<close>

lemma main_not_Finished:
  assumes "status (main u e jira fs w) \<noteq> Finished"
  shows "committed_file (files_after (main u e jira fs w)) = committed_file fs"
    and "pending_file fs = Some content \<Longrightarrow> pending_file (files_after (main u e jira fs w)) = Some content"
    and "processed (main u e jira fs w) = []"
    and "all_committed (main u e jira fs w) = []"
    and "filter (\<lambda>x. fst x = COMMITTED_FILE_PATH) (opened (files_after (main u e jira fs w)))
         = filter (\<lambda>x. fst x = COMMITTED_FILE_PATH) (opened fs)"
  using assms
  by (auto simp: main_def Let_def read_pending_def write_pending_def
           split: option.splits prod.splits if_splits)

lemma main_Finished:
  assumes "status (main u e jira fs w) = Finished"
  obtains content username w1 ps cs w2 where
    "pending_file fs = Some content"
    "pending_entry_texts (snd (partition_template content)) \<noteq> []"
    "loop_start e w = Some (username, w1)"
    "entry_loop jira username (pending_entry_texts (snd (partition_template content))) ([], [], w1)
       = Some (ps, cs, w2)"
    "main u e jira fs w =
       \<lparr>status = Finished,
        files_after = write_back u (fst (partition_template content))
           (remaining_pending_texts (pending_entry_texts (snd (partition_template content))) ps) cs
           (read_pending (read_pending fs)),
        world_after = w2, template = fst (partition_template content),
        entries = pending_entry_texts (snd (partition_template content)), processed = ps,
        all_committed = cs,
        remaining = remaining_pending_texts (pending_entry_texts (snd (partition_template content))) ps\<rparr>"
  using assms
  by (auto simp: main_def Let_def split: option.splits prod.splits if_splits)

lemma committed_entry_str_truthy:
  "committed_entry_str r \<noteq> []" "committed_entry_str r \<noteq> ''skipped''"
  by (simp_all add: committed_entry_str_def)

lemma create_and_transition_success:
  assumes "create_and_transition jira u it fs fd fa k n w = ((True, r), w')"
  shows "\<exists>c. r = Some (committed_entry_str c)"
  using assms
  by (auto simp: create_and_transition_def Let_def split: prod.splits option.splits if_splits)

lemma process_single_entry_success:
  assumes "process_single_entry entry jira u w = Some ((True, r), w')"
  shows "\<exists>c. r = Some (committed_entry_str c)"
  using assms
  by (auto simp: process_single_entry_def Let_def
           split: prod.splits if_splits Option.bind_splits
           dest: create_and_transition_success)

lemma entry_loop_slots:
  assumes "entry_loop jira u es (ps, cs, w) = Some (ps', cs', w')"
    and "list_all (\<lambda>t. strip t \<noteq> []) es"
  shows "\<exists>slots recs. ps' = ps @ slots \<and> cs' = cs @ recs \<and> length slots = length es
            \<and> length recs = length (filter (\<lambda>p. p \<noteq> None) slots)
            \<and> (\<forall>i < length es. slots ! i = None \<or> slots ! i = Some (es ! i))"
  using assms
proof (induction es arbitrary: ps cs w)
  case Nil
  then show ?case by simp
next
  case (Cons t es)
  from Cons.prems(2) have t: "strip t \<noteq> []" and es: "list_all (\<lambda>t. strip t \<noteq> []) es" by simp_all
  show ?case
  proof (cases "parse_pending_entry t = empty_dict")
    case True
    with Cons.prems(1) t have "entry_loop jira u es (ps @ [None], cs, w) = Some (ps', cs', w')"
      by simp
    from Cons.IH [OF this es] obtain slots recs where
      s: "ps' = (ps @ [None]) @ slots" "cs' = cs @ recs" "length slots = length es"
         "length recs = length (filter (\<lambda>p. p \<noteq> None) slots)"
         "\<forall>i < length es. slots ! i = None \<or> slots ! i = Some (es ! i)" by blast
    have "\<forall>i < length (t # es). (None # slots) ! i = None \<or> (None # slots) ! i = Some ((t # es) ! i)"
      using s(5) by (auto simp: nth_Cons split: nat.splits)
    with s show ?thesis
      by (intro exI [of _ "None # slots"] exI [of _ recs]) simp
  next
    case False
    with Cons.prems(1) t obtain success r w1 where
      p: "process_single_entry (parse_pending_entry t) jira u w = Some ((success, r), w1)"
      by (auto simp: Let_def split: Option.bind_splits)
    show ?thesis
    proof (cases success)
      case True
      with p obtain c where r: "r = Some (committed_entry_str c)"
        by (auto dest: process_single_entry_success)
      with Cons.prems(1) t False p True
      have "entry_loop jira u es (ps @ [Some t], cs @ [committed_entry_str c], w1) = Some (ps', cs', w')"
        by (simp add: truthy_def committed_entry_str_truthy)
      from Cons.IH [OF this es] obtain slots recs where
        s: "ps' = (ps @ [Some t]) @ slots" "cs' = (cs @ [committed_entry_str c]) @ recs"
           "length slots = length es"
           "length recs = length (filter (\<lambda>p. p \<noteq> None) slots)"
           "\<forall>i < length es. slots ! i = None \<or> slots ! i = Some (es ! i)" by blast
      have "\<forall>i < length (t # es). (Some t # slots) ! i = None
               \<or> (Some t # slots) ! i = Some ((t # es) ! i)"
        using s(5) by (auto simp: nth_Cons split: nat.splits)
      with s show ?thesis
        by (intro exI [of _ "Some t # slots"] exI [of _ "committed_entry_str c # recs"]) simp
    next
      case no: False
      with Cons.prems(1) t False p
      have "entry_loop jira u es (ps @ [None], cs, w1) = Some (ps', cs', w')"
        by simp
      from Cons.IH [OF this es] obtain slots recs where
        s: "ps' = (ps @ [None]) @ slots" "cs' = cs @ recs" "length slots = length es"
           "length recs = length (filter (\<lambda>p. p \<noteq> None) slots)"
           "\<forall>i < length es. slots ! i = None \<or> slots ! i = Some (es ! i)" by blast
      have "\<forall>i < length (t # es). (None # slots) ! i = None \<or> (None # slots) ! i = Some ((t # es) ! i)"
        using s(5) by (auto simp: nth_Cons split: nat.splits)
      with s show ?thesis
        by (intro exI [of _ "None # slots"] exI [of _ recs]) simp
    qed
  qed
qed

definition stripped :: "string \<Rightarrow> bool" where
  "stripped s = (s = [] \<or> (\<not> isspace (hd s) \<and> \<not> isspace (last s)))"

lemma stripped_strip: "stripped (strip s)"
proof (cases "dropWhile isspace s = []")
  case True
  have "strip s = []" unfolding strip_def True by simp
  then show ?thesis by (simp add: stripped_def)
next
  case False
  define a where "a = dropWhile isspace s"
  define c where "c = dropWhile isspace (rev a)"
  from False have a: "a \<noteq> []" "\<not> isspace (hd a)"
    unfolding a_def by (simp_all add: hd_dropWhile)
  then have "hd a \<in> set (rev a)" by simp
  with a(2) have c: "c \<noteq> []" unfolding c_def by (auto simp: dropWhile_eq_Nil_conv)
  then have hc: "\<not> isspace (hd c)" unfolding c_def by (simp add: hd_dropWhile)
  have "suffix c (rev a)" unfolding c_def by (rule suffix_dropWhile)
  then obtain zs where "rev a = zs @ c" by (auto simp: suffix_def)
  with c have "last c = last (rev a)" by simp
  also have "\<dots> = hd a" using a(1) by (simp add: last_rev)
  finally have lc: "\<not> isspace (last c)" using a(2) by simp
  have "strip s = rev c" by (simp add: strip_def a_def c_def)
  with c hc lc show ?thesis by (simp add: stripped_def hd_rev last_rev)
qed

lemma strip_stripped: "stripped s \<Longrightarrow> strip s = s"
proof (cases "s = []")
  case True
  then show ?thesis by (simp add: strip_def)
next
  case False
  assume "stripped s"
  with False have h: "\<not> isspace (hd s)" and l: "\<not> isspace (last s)" by (simp_all add: stripped_def)
  from False h have 1: "dropWhile isspace s = s" by (cases s) simp_all
  from False l have 2: "dropWhile isspace (rev s) = rev s"
    by (cases "rev s") (simp_all add: last_rev [symmetric] hd_rev)
  show ?thesis by (simp add: strip_def 1 2)
qed

lemma strip_idem: "strip (strip s) = strip s"
  by (rule strip_stripped) (rule stripped_strip)

lemma pending_entry_texts_nonblank:
  "e \<in> set (pending_entry_texts p) \<Longrightarrow> e \<noteq> [] \<and> stripped e"
  by (auto simp: pending_entry_texts_def stripped_strip)

lemma pending_entry_texts_all: "list_all (\<lambda>t. strip t \<noteq> []) (pending_entry_texts p)"
  by (auto simp: pending_entry_texts_def list_all_iff strip_idem)

lemma remaining_subset: "set (remaining_pending_texts es ps) \<subseteq> set es"
  by (auto simp: remaining_pending_texts_def in_set_enumerate_eq)

lemma join_py_Nil_iff: "join_py sep xs = [] \<longleftrightarrow> (\<forall>x \<in> set xs. x = []) \<and> (sep = [] \<or> length xs \<le> 1)"
  by (induction sep xs rule: join_py.induct) auto

lemma strip_Nil_iff: "strip s = [] \<longleftrightarrow> (\<forall>c \<in> set s. isspace c)"
proof
  assume "strip s = []"
  then have "dropWhile isspace (rev (dropWhile isspace s)) = []" by (simp add: strip_def)
  then have "\<forall>c \<in> set (dropWhile isspace s). isspace c" by (simp add: dropWhile_eq_Nil_conv)
  moreover have "dropWhile isspace s \<noteq> [] \<Longrightarrow> \<not> isspace (hd (dropWhile isspace s))"
    by (rule hd_dropWhile)
  ultimately have "dropWhile isspace s = []"
    by (cases "dropWhile isspace s") auto
  then show "\<forall>c \<in> set s. isspace c" by (simp add: dropWhile_eq_Nil_conv)
next
  assume "\<forall>c \<in> set s. isspace c"
  then have d: "dropWhile isspace s = []" by (simp add: dropWhile_eq_Nil_conv)
  show "strip s = []" unfolding strip_def d by simp
qed

lemma find_py_Some:
  assumes "find_py s sub = Some i"
  shows "i \<le> length s" and "prefix sub (drop i s)" and "\<forall>j < i. \<not> prefix sub (drop j s)"
  using assms
proof (induction s arbitrary: i)
  case Nil
  { case 1 then show ?case by (simp split: if_splits) }
  { case 2 then show ?case by (simp split: if_splits) }
  { case 3 then show ?case by (simp split: if_splits) }
next
  case (Cons c cs)
  { case 1 with Cons.IH(1) show ?case by (auto split: if_splits) }
  { case 2 with Cons.IH(2) show ?case by (auto split: if_splits) }
  { case 3
    show ?case
    proof (cases "prefix sub (c # cs)")
      case True
      with 3 show ?thesis by simp
    next
      case False
      with 3 obtain k where k: "find_py cs sub = Some k" "i = Suc k" by auto
      from Cons.IH(3) [OF k(1)] have "\<forall>j < k. \<not> prefix sub (drop j cs)" .
      with False k(2) show ?thesis by (auto simp: less_Suc_eq_0_disj)
    qed }
qed

lemma find_py_None: "find_py s sub = None \<Longrightarrow> j \<le> length s \<Longrightarrow> \<not> prefix sub (drop j s)"
proof (induction s arbitrary: j)
  case Nil
  then show ?case by (simp split: if_splits)
next
  case (Cons c cs)
  then show ?case by (cases j) (auto split: if_splits)
qed

lemma find_py_SomeI:
  assumes "i \<le> length s" "prefix sub (drop i s)" "\<forall>j < i. \<not> prefix sub (drop j s)"
  shows "find_py s sub = Some i"
proof (cases "find_py s sub")
  case None
  from find_py_None [OF None assms(1)] assms(2) show ?thesis by simp
next
  case (Some k)
  from find_py_Some [OF Some] assms have "\<not> k < i" "\<not> i < k" by auto
  with Some show ?thesis by simp
qed

lemma find_py_NoneI:
  assumes "\<forall>j \<le> length s. \<not> prefix sub (drop j s)"
  shows "find_py s sub = None"
proof (cases "find_py s sub")
  case None
  then show ?thesis .
next
  case (Some k)
  from find_py_Some(1,2) [OF Some] assms show ?thesis by auto
qed

lemma skip_newlines_bounds:
  "i \<le> skip_newlines content i" "i \<le> length content \<Longrightarrow> skip_newlines content i \<le> length content"
proof (induction content i rule: skip_newlines.induct)
  case (1 content i)
  { case 1 
    show ?case using "1.IH"(1) by (subst skip_newlines.simps) auto }
  { case 2
    then show ?case using "1.IH"(2) by (subst skip_newlines.simps) auto }
qed

lemma prefix_drop_nth:
  assumes "prefix (c # rest) (drop m s)"
  shows "m < length s" and "s ! m = c"
proof -
  from assms obtain zs where z: "drop m s = c # rest @ zs" by (auto simp: prefix_def)
  then show "m < length s" by (cases "m < length s") auto
  then show "s ! m = c" using z by (metis nth_via_drop)
qed

lemma prefix_drop_take:
  assumes "prefix sub (drop i s)"
  shows "take (i + length sub) s = take i s @ sub"
proof -
  from assms have "take (length sub) (drop i s) = sub" by (auto simp: prefix_def)
  then show ?thesis by (simp add: take_add)
qed

lemma find_from_Some:
  assumes "find_from s sub start = Some i"
  shows "start \<le> i" and "i \<le> length s" and "prefix sub (drop i s)"
    and "\<forall>j. start \<le> j \<and> j < i \<longrightarrow> \<not> prefix sub (drop j s)"
proof -
  from assms obtain k where k: "start \<le> length s" "find_py (drop start s) sub = Some k" "i = start + k"
    by (auto simp: find_from_def split: if_splits)
  from k(3) show "start \<le> i" by simp
  from find_py_Some(1) [OF k(2)] k(1,3) show "i \<le> length s" by simp
  from find_py_Some(2) [OF k(2)] k(3) show "prefix sub (drop i s)" by (simp add: add.commute)
  show "\<forall>j. start \<le> j \<and> j < i \<longrightarrow> \<not> prefix sub (drop j s)"
  proof (intro allI impI)
    fix j assume j: "start \<le> j \<and> j < i"
    then have "j - start < k" using k(3) by arith
    with find_py_Some(3) [OF k(2)] have "\<not> prefix sub (drop (j - start) (drop start s))" by blast
    with j show "\<not> prefix sub (drop j s)" by simp
  qed
qed

lemma find_from_None:
  assumes "find_from s sub start = None" "start \<le> j" "j \<le> length s"
  shows "\<not> prefix sub (drop j s)"
proof -
  from assms have n: "find_py (drop start s) sub = None" by (auto simp: find_from_def split: if_splits)
  from assms have "j - start \<le> length (drop start s)" by simp
  from find_py_None [OF n this] assms(2) show ?thesis by simp
qed

lemma length_ENTRY_SEPARATOR [simp]: "length ENTRY_SEPARATOR = 4"
  by (simp add: ENTRY_SEPARATOR_def)

lemma length_TEMPLATE_END_MARKER [simp]: "length TEMPLATE_END_MARKER = 21"
  by (simp add: TEMPLATE_END_MARKER_def)

lemma marker_not_space:
  assumes "find_py content TEMPLATE_END_MARKER = Some m" "m < n"
  shows "strip (take n content) \<noteq> []"
proof -
  from find_py_Some(2) [OF assms(1)] have "prefix (CHR ''<'' # ''!-- END TEMPLATE -->'') (drop m content)"
    by (simp add: TEMPLATE_END_MARKER_def)
  from prefix_drop_nth [OF this] have "m < length content" "content ! m = CHR ''<''" .
  with assms(2) have "CHR ''<'' \<in> set (take n content)"
    by (auto simp: in_set_conv_nth intro!: exI [of _ m])
  moreover have "\<not> isspace (CHR ''<'')" by (simp add: isspace_def)
  ultimately show ?thesis by (auto simp: strip_Nil_iff)
qed

lemma strip_append_nonempty: "strip s \<noteq> [] \<Longrightarrow> strip (s @ t) \<noteq> []"
  by (auto simp: strip_Nil_iff)

lemma template_shape:
  "fst (partition_template content) = []
   \<or> (endswith (fst (partition_template content)) ''\<newline>''
       \<and> strip (fst (partition_template content)) \<noteq> [])"
proof (cases "find_py content TEMPLATE_END_MARKER")
  case None
  then show ?thesis by (simp add: partition_template_def)
next
  case (Some m)
  note m = this
  show ?thesis
  proof (cases "find_from content ENTRY_SEPARATOR (m + length TEMPLATE_END_MARKER)")
    case (Some i)
    from find_from_Some(1,3) [OF Some]
    have i: "m + length TEMPLATE_END_MARKER \<le> i" "prefix ENTRY_SEPARATOR (drop i content)" .
    from prefix_drop_take [OF i(2)]
    have t: "take (i + length ENTRY_SEPARATOR) content = take i content @ ENTRY_SEPARATOR" .
    have "endswith (take i content @ ENTRY_SEPARATOR) ''\<newline>''"
      by (simp add: endswith_def ENTRY_SEPARATOR_def suffix_def)
    moreover from i(1) have "m < i + length ENTRY_SEPARATOR" by simp
    from marker_not_space [OF m this] have "strip (take (i + length ENTRY_SEPARATOR) content) \<noteq> []" .
    ultimately show ?thesis using m Some t by (simp add: partition_template_def)
  next
    case None
    define eob where "eob = skip_newlines content (m + 21)"
    have "m < eob" using skip_newlines_bounds(1) [of "m + 21" content]
      by (simp add: eob_def)
    from marker_not_space [OF m this] have s: "strip (take eob content) \<noteq> []" .
    have "endswith (take eob content @ ''\<newline>'') ''\<newline>''" by (simp add: endswith_def suffix_def)
    with s strip_append_nonempty [OF s, of "''\<newline>''"] show ?thesis using m None
      by (simp add: partition_template_def Let_def eob_def [symmetric])
  qed
qed

lemma join_py_nonempty:
  assumes "xs \<noteq> []" "\<forall>x \<in> set xs. x \<noteq> []"
  shows "join_py sep xs \<noteq> []"
  using assms by (induction sep xs rule: join_py.induct) auto

lemma second_rewrite_eq:
  assumes "t = [] \<or> (endswith t ''\<newline>'' \<and> strip t \<noteq> [])" and "\<forall>x \<in> set rem. x \<noteq> []"
  shows "second_rewrite t rem =
           t @ (if rem = [] then ''# No pending entries remaining.\<newline>''
                else join_py ENTRY_SEPARATOR rem
                     @ (if endswith (join_py ENTRY_SEPARATOR rem) ''---'' then [] else ENTRY_SEPARATOR))"
proof (cases "rem = []")
  case True
  with assms(1) show ?thesis by (auto simp: second_rewrite_def strip_def)
next
  case False
  from join_py_nonempty [OF False assms(2)] have "join_py ENTRY_SEPARATOR rem \<noteq> []" .
  moreover have "strip ENTRY_SEPARATOR = ''---''"
    by (simp add: strip_def ENTRY_SEPARATOR_def isspace_def)
  ultimately show ?thesis using False by (simp add: second_rewrite_def Let_def)
qed

lemma write_back_pending:
  "pending_file (write_back u t rem cs fs) = Some (second_rewrite t rem)"
  "pending_states (write_back u t rem cs fs)
     = pending_states fs @ [[], first_rewrite u t rem, [], second_rewrite t rem]"
  by (simp_all add: write_back_def Let_def write_pending_def append_committed_def)

lemma write_back_committed:
  "committed_file (write_back u t rem cs fs)
     = (if cs = [] then committed_file fs
        else Some ((case committed_file fs of None \<Rightarrow> [] | Some old \<Rightarrow> old)
                     @ concat (map (\<lambda>c. c @ ''\<newline>'') cs)))"
  "opened (write_back u t rem cs fs)
     = opened fs @ (if cs = [] then [] else [(COMMITTED_FILE_PATH, Mode_a)])
         @ [(PENDING_FILE_PATH, Mode_w), (PENDING_FILE_PATH, Mode_w)]"
  by (simp_all add: write_back_def Let_def write_pending_def append_committed_def)

lemma main_Finished_files:
  assumes "status (main u e jira fs w) = Finished"
  shows "files_after (main u e jira fs w)
           = write_back u (template (main u e jira fs w)) (remaining (main u e jira fs w))
               (all_committed (main u e jira fs w)) (read_pending (read_pending fs))"
    and "\<exists>content. template (main u e jira fs w) = fst (partition_template content)"
    and "set (remaining (main u e jira fs w)) \<subseteq> set (entries (main u e jira fs w))"
    and "\<exists>p. entries (main u e jira fs w) = pending_entry_texts p"
proof -
  from assms obtain content ps cs w2 where
    m: "main u e jira fs w =
       \<lparr>status = Finished,
        files_after = write_back u (fst (partition_template content))
           (remaining_pending_texts (pending_entry_texts (snd (partition_template content))) ps) cs
           (read_pending (read_pending fs)),
        world_after = w2, template = fst (partition_template content),
        entries = pending_entry_texts (snd (partition_template content)), processed = ps,
        all_committed = cs,
        remaining = remaining_pending_texts (pending_entry_texts (snd (partition_template content))) ps\<rparr>"
    by (rule main_Finished)
  show "files_after (main u e jira fs w)
           = write_back u (template (main u e jira fs w)) (remaining (main u e jira fs w))
               (all_committed (main u e jira fs w)) (read_pending (read_pending fs))"
    by (simp add: m)
  show "\<exists>content. template (main u e jira fs w) = fst (partition_template content)"
    by (auto simp: m)
  show "set (remaining (main u e jira fs w)) \<subseteq> set (entries (main u e jira fs w))"
    by (simp add: m remaining_subset)
  show "\<exists>p. entries (main u e jira fs w) = pending_entry_texts p"
    by (auto simp: m)
qed

lemma main_Finished_second_rewrite:
  assumes "status (main u e jira fs w) = Finished"
  shows "second_rewrite (template (main u e jira fs w)) (remaining (main u e jira fs w))
           = template (main u e jira fs w)
             @ (if remaining (main u e jira fs w) = [] then ''# No pending entries remaining.\<newline>''
                else join_py ENTRY_SEPARATOR (remaining (main u e jira fs w))
                     @ (if endswith (join_py ENTRY_SEPARATOR (remaining (main u e jira fs w))) ''---''
                        then [] else ENTRY_SEPARATOR))"
proof (rule second_rewrite_eq)
  from main_Finished_files(2) [OF assms] obtain content where
    "template (main u e jira fs w) = fst (partition_template content)" by blast
  with template_shape [of content]
  show "template (main u e jira fs w) = []
        \<or> (endswith (template (main u e jira fs w)) ''\<newline>''
            \<and> strip (template (main u e jira fs w)) \<noteq> [])" by simp
  show "\<forall>x \<in> set (remaining (main u e jira fs w)). x \<noteq> []"
  proof
    fix x assume "x \<in> set (remaining (main u e jira fs w))"
    with main_Finished_files(3) [OF assms] have x: "x \<in> set (entries (main u e jira fs w))"
      by auto
    from main_Finished_files(4) [OF assms] obtain p where
      "entries (main u e jira fs w) = pending_entry_texts p" by blast
    with x pending_entry_texts_nonblank [of x p] show "x \<noteq> []" by simp
  qed
qed


section \<open>What one entry asks of the operator and of the tracker\<close>

text \<open>The prompt that \<^verbatim>\<open>get_user_input\<close> shows and the answer it makes of the line read.\<close>

definition prompt_text :: "string \<Rightarrow> string option \<Rightarrow> string" where
  "prompt_text prompt_message default_value =
     (case default_value of
        Some d \<Rightarrow> prompt_message @ '' (Press Enter to accept: '' @ [CHR 0x27] @ d
                   @ [CHR 0x27] @ '') ['' @ d @ '']: ''
      | None \<Rightarrow> prompt_message @ '': '')"

definition user_response :: "string option \<Rightarrow> string \<Rightarrow> string" where
  "user_response default_value l =
     (case default_value of
        Some d \<Rightarrow> if lower (strip l) = ''confirm'' then d
                  else if strip l = [] then d else strip l
      | None \<Rightarrow> strip l)"

lemma get_user_input_Some:
  assumes "get_user_input prompt_message default_value w = Some (r, w')"
  shows "\<exists>l. events w' = events w @ [Asked (prompt_text prompt_message default_value) l]
             \<and> r = user_response default_value l"
  using assms
  by (cases default_value)
     (auto simp: get_user_input_def input_py_def prompt_text_def user_response_def Let_def
           split: Option.bind_splits list.splits if_splits)

text \<open>The events before the duplicate check: prompts, the warning, and the epic calls.\<close>

fun pre_event :: "event \<Rightarrow> bool" where
  "pre_event (Asked p l) = True"
| "pre_event (Warned m) = True"
| "pre_event (Got_project_epics p r) = True"
| "pre_event (Got_project_versions p r) = True"
| "pre_event (Created_epic q r) = True"
| "pre_event (Got_stories_in_epic p k r) = False"
| "pre_event (Client_create_issue f r) = False"
| "pre_event (Client_transitions k r) = False"
| "pre_event (Client_transition_issue k i r) = False"

definition pre_events :: "world \<Rightarrow> world \<Rightarrow> bool" where
  "pre_events w w' = (\<exists>seg. events w' = events w @ seg \<and> list_all pre_event seg)"

lemma pre_events_refl: "pre_events w w"
  by (simp add: pre_events_def)

lemma pre_events_trans: "pre_events w w1 \<Longrightarrow> pre_events w1 w2 \<Longrightarrow> pre_events w w2"
  by (auto simp: pre_events_def)

lemma pre_events_input:
  "get_user_input prompt_message default_value w = Some (r, w') \<Longrightarrow> pre_events w w'"
  by (drule get_user_input_Some) (auto simp: pre_events_def)

lemma pre_events_record: "pre_event ev \<Longrightarrow> pre_events w (record_event ev w)"
  by (simp add: pre_events_def record_event_def)

lemma pre_events_select_fix_versions:
  "select_fix_versions vs w = Some (r, w') \<Longrightarrow> pre_events w w'"
proof (induction "length (stdin w)" arbitrary: w r w' rule: less_induct)
  case less
  from less.prems obtain a w1 where
    g: "get_user_input fix_versions_prompt None w = Some (a, w1)"
    and c: "w' = w1 \<or> select_fix_versions vs w1 = Some (r, w')"
    by (subst (asm) select_fix_versions.simps)
       (auto simp: Let_def split: Option.bind_splits if_splits option.splits)
  from c show ?case
  proof
    assume "w' = w1"
    with pre_events_input [OF g] show ?thesis by simp
  next
    assume "select_fix_versions vs w1 = Some (r, w')"
    with less.hyps [OF get_user_input_shorter [OF g]] have "pre_events w1 w'" .
    with pre_events_input [OF g] show ?thesis by (rule pre_events_trans)
  qed
qed

lemma pre_events_create_new_epic:
  assumes "create_new_epic jira u w = Some (r, w')"
  shows "pre_events w w'"
proof -
  from assms obtain n w1 where g1: "get_user_input epic_name_prompt None w = Some (n, w1)"
    by (auto simp: create_new_epic_def split: Option.bind_splits)
  note p1 = pre_events_input [OF g1]
  show ?thesis
  proof (cases "n = []")
    case True
    with assms g1 have "w' = w1" by (simp add: create_new_epic_def)
    with p1 show ?thesis by simp
  next
    case False
    with assms g1 obtain d w2 where
      g2: "get_user_input epic_description_prompt None w1 = Some (d, w2)"
      by (auto simp: create_new_epic_def split: Option.bind_splits)
    note p2 = pre_events_trans [OF p1 pre_events_input [OF g2]]
    obtain vs w3 where v: "get_project_versions jira JIRA_PROJECT_KEY w2 = (vs, w3)"
      by (cases "get_project_versions jira JIRA_PROJECT_KEY w2")
    then have "pre_events w2 w3"
      by (auto simp: get_project_versions_def Let_def intro: pre_events_record)
    note p3 = pre_events_trans [OF p2 this]
    from assms g1 False g2 v obtain fv w4 where
      f: "(if vs \<noteq> [] then select_fix_versions vs w3
           else get_user_input fix_versions_input_prompt None w3 \<bind>
                  (\<lambda>(s, w'). Some (if s \<noteq> []
                        then Some (map strip (filter (\<lambda>fv. strip fv \<noteq> []) (split_py s '','')))
                        else None, w'))) = Some (fv, w4)"
      and k: "Some (r, w') =
          (case create_jira_epic jira
                 \<lparr>epic_project_key = JIRA_PROJECT_KEY, epic_name = n,
                  epic_reporter = u, epic_assignee = u,
                  epic_description = (if d \<noteq> [] then Some d else None),
                  epic_fix_versions = fv,
                  epic_components = [''FeatureCentral'']\<rparr> w4 of
             (created_epic_key, w5) \<Rightarrow>
               Some (if truthy created_epic_key then (created_epic_key, n)
                     else (None, ''N/A''), w5))"
      by (auto simp: create_new_epic_def split: Option.bind_splits)
    from f have "pre_events w3 w4"
      by (auto split: if_splits Option.bind_splits
               intro: pre_events_select_fix_versions pre_events_input)
    note p4 = pre_events_trans [OF p3 this]
    from k have "pre_events w4 w'"
      by (auto simp: create_jira_epic_def Let_def intro: pre_events_record)
    with p4 show ?thesis by (rule pre_events_trans)
  qed
qed

lemma pre_events_select_epic:
  "select_epic jira u epics w = Some (r, w') \<Longrightarrow> pre_events w w'"
proof (induction "length (stdin w)" arbitrary: w r w' rule: less_induct)
  case less
  from less.prems obtain a w1 where
    g: "get_user_input select_epic_prompt (Some ''N'') w = Some (a, w1)"
    and c: "w' = w1 \<or> create_new_epic jira u w1 = Some (r, w')
            \<or> select_epic jira u epics w1 = Some (r, w')"
    by (subst (asm) select_epic.simps)
       (auto simp: Let_def split: Option.bind_splits if_splits option.splits)
  note p = pre_events_input [OF g]
  from c consider "w' = w1" | "create_new_epic jira u w1 = Some (r, w')"
    | "select_epic jira u epics w1 = Some (r, w')" by blast
  then show ?case
  proof cases
    case 1
    with p show ?thesis by simp
  next
    case 2
    from p pre_events_create_new_epic [OF 2] show ?thesis by (rule pre_events_trans)
  next
    case 3
    with less.hyps [OF get_user_input_shorter [OF g]] have "pre_events w1 w'" .
    with p show ?thesis by (rule pre_events_trans)
  qed
qed

lemma pre_events_epic_handling:
  assumes "epic_handling jira u w = Some (r, w')"
  shows "pre_events w w'"
proof -
  obtain epics w1 where e: "get_project_epics jira JIRA_PROJECT_KEY w = (epics, w1)"
    by (cases "get_project_epics jira JIRA_PROJECT_KEY w")
  then have p1: "pre_events w w1"
    by (auto simp: get_project_epics_def Let_def intro: pre_events_record)
  show ?thesis
  proof (cases "epics = []")
    case False
    with assms e have "select_epic jira u epics w1 = Some (r, w')"
      by (simp add: epic_handling_def)
    from p1 pre_events_select_epic [OF this] show ?thesis by (rule pre_events_trans)
  next
    case True
    with assms e obtain a w2 where
      g2: "get_user_input no_epics_prompt (Some ''yes'') w1 = Some (a, w2)"
      by (auto simp: epic_handling_def split: Option.bind_splits)
    note p2 = pre_events_trans [OF p1 pre_events_input [OF g2]]
    show ?thesis
    proof (cases "lower a = ''yes''")
      case no: False
      with assms e True g2 have "w' = w2" by (simp add: epic_handling_def)
      with p2 show ?thesis by simp
    next
      case yes: True
      with assms e True g2 obtain n w3 where
        g3: "get_user_input epic_name_prompt None w2 = Some (n, w3)"
        by (auto simp: epic_handling_def split: Option.bind_splits)
      note p3 = pre_events_trans [OF p2 pre_events_input [OF g3]]
      show ?thesis
      proof (cases "n = []")
        case True
        with assms e \<open>epics = []\<close> g2 yes g3 have "w' = w3" by (simp add: epic_handling_def)
        with p3 show ?thesis by simp
      next
        case False
        with assms e \<open>epics = []\<close> g2 yes g3 obtain d w4 where
          g4: "get_user_input epic_description_prompt None w3 = Some (d, w4)"
          and k: "Some (r, w') =
            (case create_jira_epic jira
                   \<lparr>epic_project_key = JIRA_PROJECT_KEY, epic_name = n,
                    epic_reporter = u, epic_assignee = u,
                    epic_description = Some d, epic_fix_versions = None,
                    epic_components = [''FeatureCentral'']\<rparr> w4 of
               (created_epic_key, w5) \<Rightarrow>
                 Some (if truthy created_epic_key then (created_epic_key, n)
                       else (None, ''N/A''), w5))"
          by (auto simp: epic_handling_def split: Option.bind_splits)
        note p4 = pre_events_trans [OF p3 pre_events_input [OF g4]]
        from k have "pre_events w4 w'"
          by (auto simp: create_jira_epic_def Let_def intro: pre_events_record)
        with p4 show ?thesis by (rule pre_events_trans)
      qed
    qed
  qed
qed

text \<open>The issue type of an entry does not depend on the world.\<close>

definition issue_type_of :: "entry_data \<Rightarrow> string" where
  "issue_type_of entry = fst (determine_issue_type entry [] \<lparr>stdin = [], events = []\<rparr>)"

lemma determine_issue_type_eq:
  assumes "determine_issue_type entry t w = (it, w0)"
  shows "it = issue_type_of entry" and "pre_events w w0"
  using assms
  by (auto simp: determine_issue_type_def issue_type_of_def Let_def
           split: if_splits intro: pre_events_refl pre_events_record)

lemma duplicate_check_Some:
  assumes "duplicate_check jira k it title w = Some (go, w')"
  shows "(\<not> truthy k \<and> go \<and> w' = w)
       \<or> (\<exists>key. k = Some key \<and> key \<noteq> []
             \<and> duplicate_summaries (stories_in_epic jira (events w) JIRA_PROJECT_KEY key) title = []
             \<and> go
             \<and> events w' = events w
                  @ [Got_stories_in_epic JIRA_PROJECT_KEY key
                       (stories_in_epic jira (events w) JIRA_PROJECT_KEY key)])
       \<or> (\<exists>key l. k = Some key \<and> key \<noteq> []
             \<and> duplicate_summaries (stories_in_epic jira (events w) JIRA_PROJECT_KEY key) title \<noteq> []
             \<and> events w' = events w
                  @ [Got_stories_in_epic JIRA_PROJECT_KEY key
                       (stories_in_epic jira (events w) JIRA_PROJECT_KEY key),
                     Asked (prompt_text (duplicate_prompt it) (Some ''no'')) l]
             \<and> go = (lower (user_response (Some ''no'') l) = ''yes''))"
proof (cases "truthy k")
  case False
  with assms show ?thesis
    by (auto simp: duplicate_check_def truthy_def split: option.splits if_splits)
next
  case True
  then obtain key where k: "k = Some key" "key \<noteq> []"
    by (auto simp: truthy_def split: option.splits)
  define ex where "ex = stories_in_epic jira (events w) JIRA_PROJECT_KEY key"
  define w1 where "w1 = record_event (Got_stories_in_epic JIRA_PROJECT_KEY key ex) w"
  have e1: "events w1 = events w @ [Got_stories_in_epic JIRA_PROJECT_KEY key ex]"
    by (simp add: w1_def record_event_def)
  show ?thesis
  proof (cases "duplicate_summaries ex title = []")
    case True
    with assms k have "go \<and> w' = w1"
      by (auto simp: duplicate_check_def get_stories_in_epic_def Let_def ex_def w1_def
               split: if_splits)
    with True k e1 show ?thesis by (simp add: ex_def)
  next
    case False
    then have "ex \<noteq> []" by (auto simp: duplicate_summaries_def)
    with assms k False obtain a where
      g: "get_user_input (duplicate_prompt it) (Some ''no'') w1 = Some (a, w')"
      and go: "go = (lower a = ''yes'')"
      by (auto simp: duplicate_check_def get_stories_in_epic_def Let_def ex_def w1_def
               split: Option.bind_splits)
    from get_user_input_Some [OF g] e1 go False k show ?thesis
      by (auto simp: ex_def)
  qed
qed

text \<open>The events of the transition: the list of transitions, and the one executed.\<close>

fun transition_event :: "event \<Rightarrow> bool" where
  "transition_event (Client_transitions k r) = True"
| "transition_event (Client_transition_issue k i r) = True"
| "transition_event ev = False"

definition first_match :: "string \<Rightarrow> (string \<times> string) list \<Rightarrow> (string \<times> string) option" where
  "first_match target_status_name transitions =
     find (\<lambda>t. contains (lower (snd t)) (lower target_status_name)) transitions"

lemma transition_jira_issue_events:
  assumes "transition_jira_issue jira key target w = (ok, w')"
  shows "(\<not> ok \<and> events w' = events w @ [Client_transitions key (client_transitions jira (events w) key)]
          \<and> (\<forall>ts t. client_transitions jira (events w) key = Some ts
                \<longrightarrow> first_match target ts = Some t \<longrightarrow> fst t = []))
       \<or> (\<exists>ts t. client_transitions jira (events w) key = Some ts
              \<and> first_match target ts = Some t \<and> fst t \<noteq> []
              \<and> events w' = events w @ [Client_transitions key (Some ts),
                                         Client_transition_issue key (fst t) ok])"
  using assms
  by (auto simp: transition_jira_issue_def Let_def record_event_def first_match_def
           split: option.splits if_splits)

lemma create_and_transition_events:
  assumes "create_and_transition jira u it title fd fa k n w = (res, w')"
  shows "\<exists>f r tseg. events w' = events w @ Client_create_issue f r # tseg
           \<and> list_all transition_event tseg
           \<and> summary f = title \<and> issuetype f = ''Story''
           \<and> (\<not> truthy r \<longrightarrow> res = (False, None) \<and> tseg = [])
           \<and> (truthy r \<longrightarrow>
                (\<exists>ok w1. events w1 = events w @ [Client_create_issue f r]
                   \<and> transition_jira_issue jira (the r) ''Done'' w1 = (ok, w')
                   \<and> res = (True, Some (committed_entry_str
                        \<lparr>rec_epic_name = n, rec_epic_key = k, rec_issue_type = it,
                         rec_issue_key = the r, rec_summary = title,
                         rec_status = (if ok then ''Done'' else ''Open''),
                         rec_description = fd, rec_acceptance_criteria = fa\<rparr>))))"
proof -
  define f where "f = \<lparr>project = JIRA_PROJECT_KEY, summary = title,
      description_field = fd @ ''\<newline>\<newline>## Acceptance Criteria\<newline>'' @ fa,
      issuetype = ''Story'', reporter = u, assignee = u,
      customfield_10007 = (if truthy k then k else None)\<rparr>"
  define r where "r = client_create_issue jira (events w) f"
  define w1 where "w1 = record_event (Client_create_issue f r) w"
  have c: "create_jira_issue jira JIRA_PROJECT_KEY title it
             (fd @ ''\<newline>\<newline>## Acceptance Criteria\<newline>'' @ fa) u u k ''Story'' w = (r, w1)"
    by (simp add: create_jira_issue_def Let_def f_def r_def w1_def)
  have e1: "events w1 = events w @ [Client_create_issue f r]"
    by (simp add: w1_def record_event_def)
  show ?thesis
  proof (cases "truthy r")
    case False
    with assms c have "res = (False, None)" "w' = w1"
      by (auto simp: create_and_transition_def Let_def truthy_def split: option.splits if_splits)
    with False e1 show ?thesis
      by (intro exI [of _ f] exI [of _ r] exI [of _ "[]"]) (simp add: f_def)
  next
    case True
    then obtain key where key: "r = Some key" "key \<noteq> []"
      by (auto simp: truthy_def split: option.splits)
    obtain ok w2 where t: "transition_jira_issue jira key ''Done'' w1 = (ok, w2)"
      by (cases "transition_jira_issue jira key ''Done'' w1")
    with assms c key have res: "w' = w2"
      "res = (True, Some (committed_entry_str
                        \<lparr>rec_epic_name = n, rec_epic_key = k, rec_issue_type = it,
                         rec_issue_key = key, rec_summary = title,
                         rec_status = (if ok then ''Done'' else ''Open''),
                         rec_description = fd, rec_acceptance_criteria = fa\<rparr>))"
      by (auto simp: create_and_transition_def Let_def)
    from transition_jira_issue_events [OF t] obtain tseg where
      ts: "events w2 = events w1 @ tseg" "list_all transition_event tseg" by auto
    show ?thesis
      apply (intro exI [of _ f] exI [of _ r] exI [of _ tseg])
      using True key res ts e1 t by (auto simp: f_def)
  qed
qed

text \<open>The course of \<^verbatim>\<open>process_single_entry\<close>, with the epic handling left out.\<close>

lemma process_single_entry_Some:
  assumes "process_single_entry entry jira u w = Some (res, w')"
  shows "\<exists>w2. pre_events w w2 \<and>
           ((res = (False, Some ''skipped'') \<and> w' = w2)
            \<or> (\<exists>k n go w3. duplicate_check jira k (issue_type_of entry) (final_summary entry) w2
                               = Some (go, w3)
                  \<and> ((\<not> go \<and> res = (False, Some ''skipped'') \<and> w' = w3)
                      \<or> (go \<and> create_and_transition jira u (issue_type_of entry)
                                  (final_summary entry) (final_description entry)
                                  (final_ac_str entry) k n w3 = (res, w')))))"
proof (cases "final_summary entry = []")
  case True
  with assms have "res = (False, Some ''skipped'')" "w' = w"
    by (simp_all add: process_single_entry_def)
  then show ?thesis using pre_events_refl by blast
next
  case False
  obtain it w0 where d: "determine_issue_type entry (final_summary entry) w = (it, w0)"
    by (cases "determine_issue_type entry (final_summary entry) w")
  note it = determine_issue_type_eq [OF d]
  from assms False d obtain a w1 where
    g: "get_user_input (confirm_prompt it (final_summary entry)) (Some ''yes'') w0 = Some (a, w1)"
    by (auto simp: process_single_entry_def split: Option.bind_splits)
  note p1 = pre_events_trans [OF it(2) pre_events_input [OF g]]
  show ?thesis
  proof (cases "lower a = ''yes''")
    case no: False
    with assms False d g have "res = (False, Some ''skipped'')" "w' = w1"
      by (auto simp: process_single_entry_def Let_def split: if_splits)
    with p1 show ?thesis by blast
  next
    case True
    with assms False d g obtain k n w2 go w3 where
      e: "epic_handling jira u w1 = Some ((k, n), w2)"
      and dc: "duplicate_check jira k it (final_summary entry) w2 = Some (go, w3)"
      and r: "Some (res, w') =
                (if \<not> go then Some ((False, Some ''skipped''), w3)
                 else Some (create_and_transition jira u it (final_summary entry)
                              (final_description entry) (final_ac_str entry) k n w3))"
      by (auto simp: process_single_entry_def Let_def split: Option.bind_splits)
    note p2 = pre_events_trans [OF p1 pre_events_epic_handling [OF e]]
    from r have "(\<not> go \<and> res = (False, Some ''skipped'') \<and> w' = w3)
       \<or> (go \<and> create_and_transition jira u it (final_summary entry)
                  (final_description entry) (final_ac_str entry) k n w3 = (res, w'))"
      by (auto split: if_splits)
    with p2 dc it(1) show ?thesis by blast
  qed
qed

section \<open>The entries of a run, one by one\<close>

text \<open>
  The inputs of the loop of a run: the entry texts, the user name, and the world after the
  prompt for the user name.
\<close>

definition loop_inputs :: "env \<Rightarrow> files \<Rightarrow> world \<Rightarrow> (string list \<times> string \<times> world) option" where
  "loop_inputs e fs w =
     (case pending_file fs of
        None \<Rightarrow> None
      | Some content \<Rightarrow>
          map_option
            (\<lambda>(username, w1). (pending_entry_texts (snd (partition_template content)), username, w1))
            (loop_start e w))"

text \<open>The world when the loop has processed the first \<open>i\<close> entries.\<close>

definition world_before_entry :: "env \<Rightarrow> tracker \<Rightarrow> files \<Rightarrow> world \<Rightarrow> nat \<Rightarrow> world option" where
  "world_before_entry e jira fs w i =
     (case loop_inputs e fs w of
        None \<Rightarrow> None
      | Some (texts, username, w1) \<Rightarrow>
          map_option (\<lambda>st. snd (snd st)) (entry_loop jira username (take i texts) ([], [], w1)))"

text \<open>The events that the loop appends while it processes entry \<open>i\<close> (counted from 0).\<close>

definition events_of_entry :: "env \<Rightarrow> tracker \<Rightarrow> files \<Rightarrow> world \<Rightarrow> nat \<Rightarrow> event list" where
  "events_of_entry e jira fs w i =
     (case world_before_entry e jira fs w i of
        None \<Rightarrow> []
      | Some a \<Rightarrow>
          (case world_before_entry e jira fs w (Suc i) of
             None \<Rightarrow> []
           | Some b \<Rightarrow> drop (length (events a)) (events b)))"

text \<open>
  What \<^verbatim>\<open>process_single_entry\<close> returns for entry \<open>i\<close>; \<open>None\<close> when the entry does not
  parse, and when the run does not get that far.
\<close>

definition result_of_entry ::
  "env \<Rightarrow> tracker \<Rightarrow> files \<Rightarrow> world \<Rightarrow> nat \<Rightarrow> (bool \<times> string option) option" where
  "result_of_entry e jira fs w i =
     (case loop_inputs e fs w of
        None \<Rightarrow> None
      | Some (texts, username, w1) \<Rightarrow>
          (case world_before_entry e jira fs w i of
             None \<Rightarrow> None
           | Some wi \<Rightarrow>
               if i < length texts \<and> parse_pending_entry (texts ! i) \<noteq> empty_dict
               then map_option fst (process_single_entry (parse_pending_entry (texts ! i))
                                      jira username wi)
               else None))"

lemma entry_loop_append:
  "entry_loop jira u (xs @ ys) st
     = (case entry_loop jira u xs st of None \<Rightarrow> None | Some st' \<Rightarrow> entry_loop jira u ys st')"
proof (induction xs arbitrary: st)
  case Nil
  then show ?case by simp
next
  case (Cons x xs)
  obtain ps cs w where st: "st = (ps, cs, w)" by (cases st)
  show ?case unfolding st
    by (simp add: Cons.IH Let_def split: Option.bind_split prod.splits)
qed

lemma entry_loop_single:
  assumes "strip t \<noteq> []"
  shows "entry_loop jira u [t] (ps, cs, w)
     = (if parse_pending_entry t = empty_dict then Some (ps @ [None], cs, w)
        else (case process_single_entry (parse_pending_entry t) jira u w of
                None \<Rightarrow> None
              | Some (res, w') \<Rightarrow>
                  Some (ps @ [if fst res then Some t else None],
                        cs @ (if fst res then [the (snd res)] else []), w')))"
proof (cases "process_single_entry (parse_pending_entry t) jira u w")
  case None
  with assms show ?thesis by simp
next
  case (Some a)
  obtain s r w' where a: "a = ((s, r), w')" by (metis surj_pair)
  show ?thesis
  proof (cases s)
    case True
    with Some a obtain c where "r = Some (committed_entry_str c)"
      by (auto dest: process_single_entry_success)
    with assms Some a True show ?thesis
      by (simp add: truthy_def committed_entry_str_truthy)
  next
    case False
    with assms Some a show ?thesis by simp
  qed
qed

lemma loop_entry:
  assumes l: "entry_loop jira u texts ([], [], w1) = Some (ps, cs, w2)"
    and nb: "list_all (\<lambda>t. strip t \<noteq> []) texts"
    and i: "i < length texts"
  shows "\<exists>psi csi wi slot recs wi'.
           entry_loop jira u (take i texts) ([], [], w1) = Some (psi, csi, wi)
         \<and> entry_loop jira u (take (Suc i) texts) ([], [], w1)
             = Some (psi @ [slot], csi @ recs, wi')
         \<and> ps ! i = slot \<and> set recs \<subseteq> set cs
         \<and> ((parse_pending_entry (texts ! i) = empty_dict \<and> slot = None \<and> recs = [] \<and> wi' = wi)
            \<or> (parse_pending_entry (texts ! i) \<noteq> empty_dict
                \<and> (\<exists>res. process_single_entry (parse_pending_entry (texts ! i)) jira u wi
                             = Some (res, wi')
                       \<and> slot = (if fst res then Some (texts ! i) else None)
                       \<and> recs = (if fst res then [the (snd res)] else []))))"
proof -
  from i have t: "texts = take i texts @ [texts ! i] @ drop (Suc i) texts"
    by (simp add: id_take_nth_drop)
  from i have t1: "take (Suc i) texts = take i texts @ [texts ! i]"
    by (simp add: take_Suc_conv_app_nth)
  from nb i have nbi: "strip (texts ! i) \<noteq> []" by (simp add: list_all_length)
  from nb have nb1: "list_all (\<lambda>t. strip t \<noteq> []) (take i texts)"
    and nb2: "list_all (\<lambda>t. strip t \<noteq> []) (drop (Suc i) texts)"
    by (auto simp: list_all_iff dest: in_set_takeD in_set_dropD)
  from l t have "entry_loop jira u (take i texts @ [texts ! i] @ drop (Suc i) texts) ([], [], w1)
                   = Some (ps, cs, w2)" by simp
  then obtain psi csi wi where
    A: "entry_loop jira u (take i texts) ([], [], w1) = Some (psi, csi, wi)"
    and B: "entry_loop jira u ([texts ! i] @ drop (Suc i) texts) (psi, csi, wi) = Some (ps, cs, w2)"
    by (subst (asm) entry_loop_append) (auto split: option.splits)
  from B obtain st' where
    C: "entry_loop jira u [texts ! i] (psi, csi, wi) = Some st'"
    and D: "entry_loop jira u (drop (Suc i) texts) st' = Some (ps, cs, w2)"
    by (subst (asm) entry_loop_append) (auto split: option.splits)
  from C have C': "(if parse_pending_entry (texts ! i) = empty_dict then Some (psi @ [None], csi, wi)
        else (case process_single_entry (parse_pending_entry (texts ! i)) jira u wi of
                None \<Rightarrow> None
              | Some (res, w') \<Rightarrow>
                  Some (psi @ [if fst res then Some (texts ! i) else None],
                        csi @ (if fst res then [the (snd res)] else []), w'))) = Some st'"
    unfolding entry_loop_single [OF nbi] .
  have "\<exists>slot recs wi'. st' = (psi @ [slot], csi @ recs, wi')
          \<and> ((parse_pending_entry (texts ! i) = empty_dict \<and> slot = None \<and> recs = [] \<and> wi' = wi)
            \<or> (parse_pending_entry (texts ! i) \<noteq> empty_dict
                \<and> (\<exists>res. process_single_entry (parse_pending_entry (texts ! i)) jira u wi
                             = Some (res, wi')
                       \<and> slot = (if fst res then Some (texts ! i) else None)
                       \<and> recs = (if fst res then [the (snd res)] else []))))"
  proof (cases "parse_pending_entry (texts ! i) = empty_dict")
    case True
    with C' have "st' = (psi @ [None], csi @ [], wi)" by simp
    with True show ?thesis by blast
  next
    case False
    with C' obtain res wi' where
      p: "process_single_entry (parse_pending_entry (texts ! i)) jira u wi = Some (res, wi')"
      and "st' = (psi @ [if fst res then Some (texts ! i) else None],
                  csi @ (if fst res then [the (snd res)] else []), wi')"
      by (auto split: option.splits)
    with False show ?thesis by blast
  qed
  then obtain slot recs wi' where
    st': "st' = (psi @ [slot], csi @ recs, wi')"
    and E: "(parse_pending_entry (texts ! i) = empty_dict \<and> slot = None \<and> recs = [] \<and> wi' = wi)
            \<or> (parse_pending_entry (texts ! i) \<noteq> empty_dict
                \<and> (\<exists>res. process_single_entry (parse_pending_entry (texts ! i)) jira u wi
                             = Some (res, wi')
                       \<and> slot = (if fst res then Some (texts ! i) else None)
                       \<and> recs = (if fst res then [the (snd res)] else [])))"
    by blast
  from entry_loop_slots [OF A nb1] i have len: "length psi = i" by auto
  from entry_loop_slots [OF D [unfolded st'] nb2] obtain slots2 recs2 where
    F: "ps = (psi @ [slot]) @ slots2" "cs = (csi @ recs) @ recs2" by blast
  from F(1) len have G: "ps ! i = slot" by (simp add: nth_append)
  from F(2) have H: "set recs \<subseteq> set cs" by auto
  have T: "entry_loop jira u (take (Suc i) texts) ([], [], w1) = Some (psi @ [slot], csi @ recs, wi')"
    unfolding t1 by (subst entry_loop_append) (simp only: A option.case C [unfolded st'])
  from A T G H E show ?thesis by blast
qed

text \<open>
  The events of one call of \<^verbatim>\<open>process_single_entry\<close>: those before the duplicate check,
  those of the duplicate check, and those of creation and transition.
\<close>

definition duplicate_events ::
  "tracker \<Rightarrow> event list \<Rightarrow> string \<Rightarrow> string \<Rightarrow> event list \<Rightarrow> bool" where
  "duplicate_events jira before it title dup =
     (dup = []
      \<or> (\<exists>key. dup = [Got_stories_in_epic JIRA_PROJECT_KEY key
                        (stories_in_epic jira before JIRA_PROJECT_KEY key)]
            \<and> key \<noteq> []
            \<and> duplicate_summaries (stories_in_epic jira before JIRA_PROJECT_KEY key) title = [])
      \<or> (\<exists>key l. dup = [Got_stories_in_epic JIRA_PROJECT_KEY key
                          (stories_in_epic jira before JIRA_PROJECT_KEY key),
                        Asked (prompt_text (duplicate_prompt it) (Some ''no'')) l]
            \<and> key \<noteq> []
            \<and> duplicate_summaries (stories_in_epic jira before JIRA_PROJECT_KEY key) title \<noteq> []))"

definition declined :: "event list \<Rightarrow> bool" where
  "declined dup = (\<exists>ev p l. dup = [ev, Asked p l] \<and> lower (user_response (Some ''no'') l) \<noteq> ''yes'')"

definition transition_events :: "string \<Rightarrow> event list \<Rightarrow> bool \<Rightarrow> bool" where
  "transition_events key tseg ok =
     ((\<not> ok \<and> (\<exists>ts. tseg = [Client_transitions key ts]
                  \<and> (\<forall>l t. ts = Some l \<longrightarrow> first_match ''Done'' l = Some t \<longrightarrow> fst t = [])))
      \<or> (\<exists>ts t. first_match ''Done'' ts = Some t \<and> fst t \<noteq> []
             \<and> tseg = [Client_transitions key (Some ts), Client_transition_issue key (fst t) ok]))"

definition creation_events ::
  "entry_data \<Rightarrow> event list \<Rightarrow> bool \<times> string option \<Rightarrow> bool" where
  "creation_events entry cr res =
     (\<exists>f r tseg. cr = Client_create_issue f r # tseg
        \<and> summary f = final_summary entry \<and> issuetype f = ''Story''
        \<and> (\<not> truthy r \<longrightarrow> res = (False, None) \<and> tseg = [])
        \<and> (truthy r \<longrightarrow>
             (\<exists>ok c. transition_events (the r) tseg ok
                \<and> res = (True, Some (committed_entry_str c))
                \<and> rec_issue_type c = issue_type_of entry \<and> rec_issue_key c = the r
                \<and> rec_summary c = final_summary entry
                \<and> rec_status c = (if ok then ''Done'' else ''Open''))))"


lemma declined_pair [simp]:
  "declined [ev, Asked p l] \<longleftrightarrow> lower (user_response (Some ''no'') l) \<noteq> ''yes''"
  by (simp add: declined_def)

lemma declined_short [simp]: "\<not> declined []" "\<not> declined [ev]"
  by (simp_all add: declined_def)

lemma duplicate_check_events:
  assumes "duplicate_check jira k it title w = Some (go, w')"
  shows "\<exists>dup. events w' = events w @ dup
           \<and> duplicate_events jira (events w) it title dup \<and> (go \<longleftrightarrow> \<not> declined dup)"
  using duplicate_check_Some [OF assms]
proof (elim disjE exE conjE)
  assume "\<not> truthy k" go "w' = w"
  then show ?thesis by (intro exI [of _ "[]"]) (simp add: duplicate_events_def)
next
  fix key
  assume "key \<noteq> []"
    "duplicate_summaries (stories_in_epic jira (events w) JIRA_PROJECT_KEY key) title = []"
    go "events w' = events w @ [Got_stories_in_epic JIRA_PROJECT_KEY key
                       (stories_in_epic jira (events w) JIRA_PROJECT_KEY key)]"
  then show ?thesis
    by (intro exI [of _ "[Got_stories_in_epic JIRA_PROJECT_KEY key
                       (stories_in_epic jira (events w) JIRA_PROJECT_KEY key)]"])
       (simp add: duplicate_events_def)
next
  fix key l
  assume "key \<noteq> []"
    "duplicate_summaries (stories_in_epic jira (events w) JIRA_PROJECT_KEY key) title \<noteq> []"
    "events w' = events w
                  @ [Got_stories_in_epic JIRA_PROJECT_KEY key
                       (stories_in_epic jira (events w) JIRA_PROJECT_KEY key),
                     Asked (prompt_text (duplicate_prompt it) (Some ''no'')) l]"
    "go = (lower (user_response (Some ''no'') l) = ''yes'')"
  then show ?thesis
    by (intro exI [of _ "[Got_stories_in_epic JIRA_PROJECT_KEY key
                       (stories_in_epic jira (events w) JIRA_PROJECT_KEY key),
                     Asked (prompt_text (duplicate_prompt it) (Some ''no'')) l]"])
       (simp add: duplicate_events_def)
qed

lemma transition_jira_issue_trace:
  assumes "transition_jira_issue jira key ''Done'' w = (ok, w')"
  shows "\<exists>tseg. events w' = events w @ tseg \<and> transition_events key tseg ok"
  using transition_jira_issue_events [OF assms]
proof (elim disjE exE conjE)
  assume "\<not> ok"
    "events w' = events w @ [Client_transitions key (client_transitions jira (events w) key)]"
    "\<forall>ts t. client_transitions jira (events w) key = Some ts
                \<longrightarrow> first_match ''Done'' ts = Some t \<longrightarrow> fst t = []"
  then show ?thesis
    by (intro exI [of _ "[Client_transitions key (client_transitions jira (events w) key)]"])
       (simp add: transition_events_def)
next
  fix ts t
  assume "first_match ''Done'' ts = Some t" "fst t \<noteq> []"
    "events w' = events w @ [Client_transitions key (Some ts),
                                         Client_transition_issue key (fst t) ok]"
  moreover from this(1,2)
  have "transition_events key [Client_transitions key (Some ts),
                               Client_transition_issue key (fst t) ok] ok"
    unfolding transition_events_def by blast
  ultimately show ?thesis by blast
qed

lemma create_and_transition_trace:
  assumes ct: "create_and_transition jira u (issue_type_of entry) (final_summary entry)
                 (final_description entry) (final_ac_str entry) k n w = (res, w')"
  shows "\<exists>cr. events w' = events w @ cr \<and> creation_events entry cr res"
proof -
  from create_and_transition_events [OF ct] obtain f r tseg where
    e: "events w' = events w @ Client_create_issue f r # tseg"
    and f: "summary f = final_summary entry" "issuetype f = ''Story''"
    and n: "\<not> truthy r \<longrightarrow> res = (False, None) \<and> tseg = []"
    and t: "truthy r \<longrightarrow>
            (\<exists>ok w1. events w1 = events w @ [Client_create_issue f r]
               \<and> transition_jira_issue jira (the r) ''Done'' w1 = (ok, w')
               \<and> res = (True, Some (committed_entry_str
                    \<lparr>rec_epic_name = n, rec_epic_key = k,
                     rec_issue_type = issue_type_of entry,
                     rec_issue_key = the r, rec_summary = final_summary entry,
                     rec_status = (if ok then ''Done'' else ''Open''),
                     rec_description = final_description entry,
                     rec_acceptance_criteria = final_ac_str entry\<rparr>)))" by blast
  have "creation_events entry (Client_create_issue f r # tseg) res"
  proof (cases "truthy r")
    case False
    with n f show ?thesis unfolding creation_events_def by blast
  next
    case True
    with t obtain ok w1 where
      w1: "events w1 = events w @ [Client_create_issue f r]"
      and tj: "transition_jira_issue jira (the r) ''Done'' w1 = (ok, w')"
      and res: "res = (True, Some (committed_entry_str
                    \<lparr>rec_epic_name = n, rec_epic_key = k,
                     rec_issue_type = issue_type_of entry,
                     rec_issue_key = the r, rec_summary = final_summary entry,
                     rec_status = (if ok then ''Done'' else ''Open''),
                     rec_description = final_description entry,
                     rec_acceptance_criteria = final_ac_str entry\<rparr>))" by blast
    from transition_jira_issue_trace [OF tj] obtain tseg' where
      "events w' = events w1 @ tseg'" and te: "transition_events (the r) tseg' ok" by blast
    with e w1 have "tseg' = tseg" by simp
    with te have te': "transition_events (the r) tseg ok" by simp
    define c where "c = \<lparr>rec_epic_name = n, rec_epic_key = k,
                     rec_issue_type = issue_type_of entry,
                     rec_issue_key = the r, rec_summary = final_summary entry,
                     rec_status = (if ok then ''Done'' else ''Open''),
                     rec_description = final_description entry,
                     rec_acceptance_criteria = final_ac_str entry\<rparr>"
    have "res = (True, Some (committed_entry_str c))" "rec_issue_type c = issue_type_of entry"
      "rec_issue_key c = the r" "rec_summary c = final_summary entry"
      "rec_status c = (if ok then ''Done'' else ''Open'')"
      by (simp_all add: c_def res)
    with True f te' show ?thesis unfolding creation_events_def by blast
  qed
  with e show ?thesis by blast
qed

lemma process_single_entry_trace:
  assumes "process_single_entry entry jira u w = Some (res, w')"
  shows "\<exists>pre dup cr. events w' = events w @ pre @ dup @ cr
           \<and> list_all pre_event pre
           \<and> duplicate_events jira (events w @ pre) (issue_type_of entry) (final_summary entry) dup
           \<and> ((cr = [] \<and> res = (False, Some ''skipped'') \<and> (dup \<noteq> [] \<longrightarrow> declined dup))
              \<or> (creation_events entry cr res \<and> \<not> declined dup))"
proof -
  from process_single_entry_Some [OF assms] obtain w2 where
    p: "pre_events w w2"
    and c: "(res = (False, Some ''skipped'') \<and> w' = w2)
            \<or> (\<exists>k n go w3. duplicate_check jira k (issue_type_of entry) (final_summary entry) w2
                               = Some (go, w3)
                  \<and> ((\<not> go \<and> res = (False, Some ''skipped'') \<and> w' = w3)
                      \<or> (go \<and> create_and_transition jira u (issue_type_of entry)
                                  (final_summary entry) (final_description entry)
                                  (final_ac_str entry) k n w3 = (res, w'))))" by blast
  from p obtain pre where pre: "events w2 = events w @ pre" "list_all pre_event pre"
    unfolding pre_events_def by blast
  from c show ?thesis
  proof
    assume a: "res = (False, Some ''skipped'') \<and> w' = w2"
    have "duplicate_events jira (events w @ pre) (issue_type_of entry) (final_summary entry) []"
      by (simp add: duplicate_events_def)
    with a pre show ?thesis
      by (intro exI [of _ pre] exI [of _ "[]"]) simp
  next
    assume "\<exists>k n go w3. duplicate_check jira k (issue_type_of entry) (final_summary entry) w2
                               = Some (go, w3)
                  \<and> ((\<not> go \<and> res = (False, Some ''skipped'') \<and> w' = w3)
                      \<or> (go \<and> create_and_transition jira u (issue_type_of entry)
                                  (final_summary entry) (final_description entry)
                                  (final_ac_str entry) k n w3 = (res, w')))"
    then obtain k n go w3 where
      dc: "duplicate_check jira k (issue_type_of entry) (final_summary entry) w2 = Some (go, w3)"
      and r: "(\<not> go \<and> res = (False, Some ''skipped'') \<and> w' = w3)
              \<or> (go \<and> create_and_transition jira u (issue_type_of entry)
                          (final_summary entry) (final_description entry)
                          (final_ac_str entry) k n w3 = (res, w'))" by blast
    from duplicate_check_events [OF dc] obtain dup where
      d: "events w3 = events w2 @ dup"
         "duplicate_events jira (events w2) (issue_type_of entry) (final_summary entry) dup"
         "go \<longleftrightarrow> \<not> declined dup" by blast
    from d(2) pre(1)
    have d2: "duplicate_events jira (events w @ pre) (issue_type_of entry) (final_summary entry) dup"
      by simp
    from r show ?thesis
    proof
      assume a: "\<not> go \<and> res = (False, Some ''skipped'') \<and> w' = w3"
      with d(3) have "declined dup" by simp
      with a pre d(1) d2 show ?thesis
        by (intro exI [of _ pre] exI [of _ dup] exI [of _ "[]"]) simp
    next
      assume a: "go \<and> create_and_transition jira u (issue_type_of entry)
                          (final_summary entry) (final_description entry)
                          (final_ac_str entry) k n w3 = (res, w')"
      then have nd: "\<not> declined dup" using d(3) by simp
      from a create_and_transition_trace obtain cr where
        cr: "events w' = events w3 @ cr" "creation_events entry cr res" by blast
      from cr(1) d(1) pre(1) have "events w' = events w @ pre @ dup @ cr" by simp
      with pre(2) d2 cr(2) nd show ?thesis by blast
    qed
  qed
qed

lemma process_single_entry_extends:
  assumes "process_single_entry entry jira u w = Some (res, w')"
  shows "events w' = events w @ drop (length (events w)) (events w')"
proof -
  from process_single_entry_trace [OF assms] obtain seg where "events w' = events w @ seg"
    by blast
  then show ?thesis by simp
qed


lemma main_entry:
  assumes f: "status (main u e jira fs w) = Finished"
    and i: "i < length (entries (main u e jira fs w))"
  shows "\<exists>texts username w1 wi wi'.
           loop_inputs e fs w = Some (texts, username, w1)
         \<and> texts = entries (main u e jira fs w)
         \<and> world_before_entry e jira fs w i = Some wi
         \<and> world_before_entry e jira fs w (Suc i) = Some wi'
         \<and> ((parse_pending_entry (texts ! i) = empty_dict \<and> wi' = wi
              \<and> result_of_entry e jira fs w i = None
              \<and> processed (main u e jira fs w) ! i = None)
            \<or> (\<exists>res. process_single_entry (parse_pending_entry (texts ! i)) jira username wi
                         = Some (res, wi')
                   \<and> result_of_entry e jira fs w i = Some res
                   \<and> processed (main u e jira fs w) ! i
                       = (if fst res then Some (texts ! i) else None)
                   \<and> (fst res \<longrightarrow> the (snd res) \<in> set (all_committed (main u e jira fs w)))))"
proof -
  from f obtain content username w1 ps cs w2 where
    c: "pending_file fs = Some content"
    and ls: "loop_start e w = Some (username, w1)"
    and l: "entry_loop jira username (pending_entry_texts (snd (partition_template content)))
          ([], [], w1) = Some (ps, cs, w2)"
    and m: "main u e jira fs w =
       \<lparr>status = Finished,
        files_after = write_back u (fst (partition_template content))
           (remaining_pending_texts (pending_entry_texts (snd (partition_template content))) ps) cs
           (read_pending (read_pending fs)),
        world_after = w2, template = fst (partition_template content),
        entries = pending_entry_texts (snd (partition_template content)), processed = ps,
        all_committed = cs,
        remaining = remaining_pending_texts (pending_entry_texts (snd (partition_template content))) ps\<rparr>"
    by (rule main_Finished)
  define texts where "texts = pending_entry_texts (snd (partition_template content))"
  from i m have i': "i < length texts" by (simp add: texts_def)
  have li: "loop_inputs e fs w = Some (texts, username, w1)"
    by (simp add: loop_inputs_def c ls texts_def)
  from loop_entry [OF l [folded texts_def] _ i'] pending_entry_texts_all [of "snd (partition_template content)"]
  obtain psi csi wi slot recs wi' where
    A: "entry_loop jira username (take i texts) ([], [], w1) = Some (psi, csi, wi)"
    and B: "entry_loop jira username (take (Suc i) texts) ([], [], w1)
             = Some (psi @ [slot], csi @ recs, wi')"
    and C: "ps ! i = slot" "set recs \<subseteq> set cs"
    and D: "(parse_pending_entry (texts ! i) = empty_dict \<and> slot = None \<and> recs = [] \<and> wi' = wi)
            \<or> (parse_pending_entry (texts ! i) \<noteq> empty_dict
                \<and> (\<exists>res. process_single_entry (parse_pending_entry (texts ! i)) jira username wi
                             = Some (res, wi')
                       \<and> slot = (if fst res then Some (texts ! i) else None)
                       \<and> recs = (if fst res then [the (snd res)] else [])))"
    unfolding texts_def by blast
  have wa: "world_before_entry e jira fs w i = Some wi"
    by (simp add: world_before_entry_def li A)
  have wb: "world_before_entry e jira fs w (Suc i) = Some wi'"
    by (simp add: world_before_entry_def li B)
  from D have "(parse_pending_entry (texts ! i) = empty_dict \<and> wi' = wi
              \<and> result_of_entry e jira fs w i = None
              \<and> processed (main u e jira fs w) ! i = None)
            \<or> (\<exists>res. process_single_entry (parse_pending_entry (texts ! i)) jira username wi
                         = Some (res, wi')
                   \<and> result_of_entry e jira fs w i = Some res
                   \<and> processed (main u e jira fs w) ! i
                       = (if fst res then Some (texts ! i) else None)
                   \<and> (fst res \<longrightarrow> the (snd res) \<in> set (all_committed (main u e jira fs w))))"
  proof
    assume "parse_pending_entry (texts ! i) = empty_dict \<and> slot = None \<and> recs = [] \<and> wi' = wi"
    with C m show ?thesis by (simp add: result_of_entry_def li wa)
  next
    assume "parse_pending_entry (texts ! i) \<noteq> empty_dict
                \<and> (\<exists>res. process_single_entry (parse_pending_entry (texts ! i)) jira username wi
                             = Some (res, wi')
                       \<and> slot = (if fst res then Some (texts ! i) else None)
                       \<and> recs = (if fst res then [the (snd res)] else []))"
    then obtain res where ne: "parse_pending_entry (texts ! i) \<noteq> empty_dict"
      and p: "process_single_entry (parse_pending_entry (texts ! i)) jira username wi
                = Some (res, wi')"
      and s: "slot = (if fst res then Some (texts ! i) else None)"
             "recs = (if fst res then [the (snd res)] else [])" by blast
    have "result_of_entry e jira fs w i = Some res"
      by (simp add: result_of_entry_def li wa i' ne p)
    moreover from C s m have "processed (main u e jira fs w) ! i
                       = (if fst res then Some (texts ! i) else None)" by simp
    moreover from C(2) s(2) m have "fst res \<longrightarrow> the (snd res) \<in> set (all_committed (main u e jira fs w))"
      by auto
    ultimately show ?thesis using p by blast
  qed
  with li wa wb m show ?thesis by (auto simp: texts_def)
qed

lemma main_entry_trace:
  assumes f: "status (main u e jira fs w) = Finished"
    and i: "i < length (entries (main u e jira fs w))"
  shows "(parse_pending_entry (entries (main u e jira fs w) ! i) = empty_dict
          \<and> events_of_entry e jira fs w i = []
          \<and> result_of_entry e jira fs w i = None
          \<and> processed (main u e jira fs w) ! i = None)
       \<or> (\<exists>res before pre dup cr.
             result_of_entry e jira fs w i = Some res
           \<and> processed (main u e jira fs w) ! i
               = (if fst res then Some (entries (main u e jira fs w) ! i) else None)
           \<and> (fst res \<longrightarrow> the (snd res) \<in> set (all_committed (main u e jira fs w)))
           \<and> events_of_entry e jira fs w i = pre @ dup @ cr
           \<and> list_all pre_event pre
           \<and> duplicate_events jira (before @ pre)
                (issue_type_of (parse_pending_entry (entries (main u e jira fs w) ! i)))
                (final_summary (parse_pending_entry (entries (main u e jira fs w) ! i))) dup
           \<and> ((cr = [] \<and> res = (False, Some ''skipped'') \<and> (dup \<noteq> [] \<longrightarrow> declined dup))
              \<or> (creation_events (parse_pending_entry (entries (main u e jira fs w) ! i)) cr res
                  \<and> \<not> declined dup)))"
proof -
  from main_entry [OF f i] obtain texts username w1 wi wi' where
    t: "texts = entries (main u e jira fs w)"
    and wa: "world_before_entry e jira fs w i = Some wi"
    and wb: "world_before_entry e jira fs w (Suc i) = Some wi'"
    and c: "(parse_pending_entry (texts ! i) = empty_dict \<and> wi' = wi
              \<and> result_of_entry e jira fs w i = None
              \<and> processed (main u e jira fs w) ! i = None)
            \<or> (\<exists>res. process_single_entry (parse_pending_entry (texts ! i)) jira username wi
                         = Some (res, wi')
                   \<and> result_of_entry e jira fs w i = Some res
                   \<and> processed (main u e jira fs w) ! i
                       = (if fst res then Some (texts ! i) else None)
                   \<and> (fst res \<longrightarrow> the (snd res) \<in> set (all_committed (main u e jira fs w))))"
    by blast
  have ev: "events_of_entry e jira fs w i = drop (length (events wi)) (events wi')"
    by (simp add: events_of_entry_def wa wb)
  from c show ?thesis
  proof
    assume "parse_pending_entry (texts ! i) = empty_dict \<and> wi' = wi
              \<and> result_of_entry e jira fs w i = None
              \<and> processed (main u e jira fs w) ! i = None"
    with ev t show ?thesis by simp
  next
    assume "\<exists>res. process_single_entry (parse_pending_entry (texts ! i)) jira username wi
                         = Some (res, wi')
                   \<and> result_of_entry e jira fs w i = Some res
                   \<and> processed (main u e jira fs w) ! i
                       = (if fst res then Some (texts ! i) else None)
                   \<and> (fst res \<longrightarrow> the (snd res) \<in> set (all_committed (main u e jira fs w)))"
    then obtain res where
      p: "process_single_entry (parse_pending_entry (texts ! i)) jira username wi = Some (res, wi')"
      and r: "result_of_entry e jira fs w i = Some res"
         "processed (main u e jira fs w) ! i = (if fst res then Some (texts ! i) else None)"
         "fst res \<longrightarrow> the (snd res) \<in> set (all_committed (main u e jira fs w))" by blast
    from process_single_entry_trace [OF p] obtain pre dup cr where
      tr: "events wi' = events wi @ pre @ dup @ cr" "list_all pre_event pre"
        "duplicate_events jira (events wi @ pre) (issue_type_of (parse_pending_entry (texts ! i)))
           (final_summary (parse_pending_entry (texts ! i))) dup"
        "(cr = [] \<and> res = (False, Some ''skipped'') \<and> (dup \<noteq> [] \<longrightarrow> declined dup))
         \<or> (creation_events (parse_pending_entry (texts ! i)) cr res \<and> \<not> declined dup)"
      by blast
    from tr(1) ev have "events_of_entry e jira fs w i = pre @ dup @ cr" by simp
    with r tr(2,3,4) show ?thesis unfolding t by blast
  qed
qed





section \<open>Every entry is committed or retained\<close>












section \<open>The claims about the two log files\<close>

text \<open>
  C10. For every run in which no entry reaches the Committed state, the committed log is
  neither opened nor modified. It is appended to only when there is at least one committed
  record, and then every record is followed by one extra newline.
\<close>

theorem committed_log_touched_only_for_commits:
  "(list_all (\<lambda>p. p = None) (processed (main u e jira fs w)) \<longrightarrow>
      committed_file (files_after (main u e jira fs w)) = committed_file fs
      \<and> filter (\<lambda>x. fst x = COMMITTED_FILE_PATH) (opened (files_after (main u e jira fs w)))
          = filter (\<lambda>x. fst x = COMMITTED_FILE_PATH) (opened fs))
   \<and> (\<not> list_all (\<lambda>p. p = None) (processed (main u e jira fs w)) \<longrightarrow>
      all_committed (main u e jira fs w) \<noteq> []
      \<and> committed_file (files_after (main u e jira fs w))
          = Some ((case committed_file fs of None \<Rightarrow> [] | Some old \<Rightarrow> old)
                    @ concat (map (\<lambda>c. c @ ''\<newline>'') (all_committed (main u e jira fs w)))))"
proof (cases "status (main u e jira fs w) = Finished")
  case False
  from main_not_Finished(1,3,4,5) [OF False] show ?thesis by simp
next
  case True
  then obtain content username w1 ps cs w2 where
    l: "entry_loop jira username (pending_entry_texts (snd (partition_template content)))
          ([], [], w1) = Some (ps, cs, w2)"
    and m: "main u e jira fs w =
       \<lparr>status = Finished,
        files_after = write_back u (fst (partition_template content))
           (remaining_pending_texts (pending_entry_texts (snd (partition_template content))) ps) cs
           (read_pending (read_pending fs)),
        world_after = w2, template = fst (partition_template content),
        entries = pending_entry_texts (snd (partition_template content)), processed = ps,
        all_committed = cs,
        remaining = remaining_pending_texts (pending_entry_texts (snd (partition_template content))) ps\<rparr>"
    by (rule main_Finished)
  from entry_loop_slots [OF l pending_entry_texts_all]
  have n: "length cs = length (filter (\<lambda>p. p \<noteq> None) ps)" by auto
  have "cs = [] \<longleftrightarrow> list_all (\<lambda>p. p = None) ps"
  proof -
    have "cs = [] \<longleftrightarrow> filter (\<lambda>p. p \<noteq> None) ps = []" using n by auto
    then show ?thesis by (simp add: filter_empty_conv list_all_iff)
  qed
  then show ?thesis
    by (simp add: m write_back_committed read_pending_def)
qed

theorem committed_log_touched_only_for_commits_witness:
  "list_all (\<lambda>p. p = None) (processed declined_run)
   \<and> committed_file (files_after declined_run) = None
   \<and> filter (\<lambda>x. fst x = COMMITTED_FILE_PATH) (opened (files_after declined_run)) = []
   \<and> \<not> list_all (\<lambda>p. p = None) (processed example_run)
   \<and> committed_file (files_after example_run)
       = Some (concat (map (\<lambda>c. c @ ''\<newline>'') (all_committed example_run)))"
proof -
  have a: "list_all (\<lambda>p. p = None) (processed declined_run)" by code_simp
  have b: "\<not> list_all (\<lambda>p. p = None) (processed example_run)" by code_simp
  have f: "committed_file example_files = None" "opened example_files = []"
    by (simp_all add: example_files_def)
  from a b f
    committed_log_touched_only_for_commits [of "''Amy''" example_env example_tracker
      example_files "example_world ['''', ''no'', ''skip'']"]
    committed_log_touched_only_for_commits [of "''Amy''" example_env example_tracker
      example_files "example_world ['''', ''yes'', ''none'', ''yes'', ''none'']"]
  show ?thesis by (simp add: declined_run_def example_run_def)
qed



text \<open>
  The final content of the pending log as C9 words it: the template section followed by the
  separator-joined retained entries ``with a trailing separator ensured'', or by the
  placeholder line when no entry remains.
\<close>

definition claimed_final_content :: "string \<Rightarrow> string list \<Rightarrow> string" where
  "claimed_final_content template_section remaining_texts =
     template_section
     @ (if remaining_texts = [] then ''# No pending entries remaining.\<newline>''
        else if endswith (join_py ENTRY_SEPARATOR remaining_texts) ENTRY_SEPARATOR
        then join_py ENTRY_SEPARATOR remaining_texts
        else join_py ENTRY_SEPARATOR remaining_texts @ ENTRY_SEPARATOR)"

text \<open>
  C9, as stated, fails: the second rewrite tests the joined entries for the separator
  without its newline, so a last retained entry that ends in \<^verbatim>\<open>---\<close> leaves the file
  without a trailing separator.
\<close>

theorem claimed_final_content_counterexample:
  "status example_run = Finished
   \<and> last (remaining example_run) = ''no title\<newline>---''
   \<and> pending_file (files_after example_run)
       \<noteq> Some (claimed_final_content (template example_run) (remaining example_run))"
  by code_simp

text \<open>
  C9, amended. In a run that reaches its end the pending log is written twice, and what the
  second rewrite writes is the final content: the template section, then the retained entries
  joined by the separator and followed by one more separator unless the joined text already
  ends in \<^verbatim>\<open>---\<close>, or, when no entry remains, the placeholder line. When there is no
  template and every entry was committed, the first rewrite writes a fresh template and the
  final file holds the placeholder line only.
\<close>

theorem second_rewrite_decides_final_content:
  assumes "out = main u e jira fs w" and "status out = Finished"
  shows "pending_states (files_after out)
           = pending_states fs
             @ [[], first_rewrite u (template out) (remaining out),
                [], second_rewrite (template out) (remaining out)]
         \<and> pending_file (files_after out) = Some (second_rewrite (template out) (remaining out))
         \<and> second_rewrite (template out) (remaining out)
             = template out
               @ (if remaining out = [] then ''# No pending entries remaining.\<newline>''
                  else join_py ENTRY_SEPARATOR (remaining out)
                       @ (if endswith (join_py ENTRY_SEPARATOR (remaining out)) ''---''
                          then [] else ENTRY_SEPARATOR))
         \<and> (template out = [] \<and> remaining out = [] \<longrightarrow>
               first_rewrite u (template out) (remaining out) = fresh_template u
               \<and> pending_file (files_after out) = Some ''# No pending entries remaining.\<newline>'')"
proof -
  from assms have f: "status (main u e jira fs w) = Finished" by simp
  have 1: "pending_states (files_after out)
           = pending_states fs
             @ [[], first_rewrite u (template out) (remaining out),
                [], second_rewrite (template out) (remaining out)]"
    unfolding assms(1) main_Finished_files(1) [OF f]
    by (simp add: write_back_pending read_pending_def)
  have 2: "pending_file (files_after out) = Some (second_rewrite (template out) (remaining out))"
    unfolding assms(1) main_Finished_files(1) [OF f] by (simp add: write_back_pending)
  have 3: "second_rewrite (template out) (remaining out)
             = template out
               @ (if remaining out = [] then ''# No pending entries remaining.\<newline>''
                  else join_py ENTRY_SEPARATOR (remaining out)
                       @ (if endswith (join_py ENTRY_SEPARATOR (remaining out)) ''---''
                          then [] else ENTRY_SEPARATOR))"
    unfolding assms(1) by (rule main_Finished_second_rewrite [OF f])
  have 4: "template out = [] \<and> remaining out = [] \<longrightarrow>
               first_rewrite u (template out) (remaining out) = fresh_template u
               \<and> pending_file (files_after out) = Some ''# No pending entries remaining.\<newline>''"
    using 2 3 by (simp add: first_rewrite_def)
  from 1 2 3 4 show ?thesis by blast
qed

theorem second_rewrite_decides_final_content_witness:
  "status example_run = Finished
   \<and> pending_file (files_after example_run)
       = Some (template example_run
               @ join_py ENTRY_SEPARATOR (remaining example_run))
   \<and> status bare_run = Finished
   \<and> pending_states (files_after bare_run)
       = [[], fresh_template ''Amy'', [], ''# No pending entries remaining.\<newline>'']
   \<and> pending_file (files_after bare_run) = Some ''# No pending entries remaining.\<newline>''"
proof -
  have a: "status example_run = Finished" by code_simp
  have b: "status bare_run = Finished" by code_simp
  have c: "remaining example_run \<noteq> []"
    "endswith (join_py ENTRY_SEPARATOR (remaining example_run)) ''---''" by code_simp+
  have d: "template bare_run = []" "remaining bare_run = []" by code_simp+
  have e: "pending_states bare_files = []" by (simp add: bare_files_def)
  from second_rewrite_decides_final_content [OF example_run_def a] c
  have 1: "pending_file (files_after example_run)
       = Some (template example_run @ join_py ENTRY_SEPARATOR (remaining example_run))"
    by simp
  from second_rewrite_decides_final_content [OF bare_run_def b] d e
  have 2: "pending_states (files_after bare_run)
       = [[], fresh_template ''Amy'', [], ''# No pending entries remaining.\<newline>'']"
    "pending_file (files_after bare_run) = Some ''# No pending entries remaining.\<newline>''"
    by simp_all
  from a b 1 2 show ?thesis by blast
qed

text \<open>
  C1, as stated, fails: there is no temporary file and no atomic replace. Each of the two
  rewrites opens the pending log itself for writing, which truncates it, so the log passes
  through the empty state, which is neither its state before the run nor its state after.
\<close>

theorem atomic_rewrite_counterexample:
  "status example_run = Finished
   \<and> [] \<in> set (pending_states (files_after example_run))
   \<and> pending_file example_files \<noteq> Some []
   \<and> pending_file (files_after example_run) \<noteq> Some []"
  by code_simp

text \<open>
  C1, amended. In a run that reaches its end, the only files opened after the two reads are
  the committed log (for appending, when there is a committed record) and the pending log
  itself, twice for writing; the pending log is empty after each of the two openings, holds
  what the first rewrite wrote in between, and holds its final content only when the second
  rewrite is complete.
\<close>

theorem pending_log_rewritten_in_place:
  assumes "out = main u e jira fs w" and "status out = Finished"
  shows "opened (files_after out)
           = opened fs @ [(PENDING_FILE_PATH, Mode_r), (PENDING_FILE_PATH, Mode_r)]
             @ (if all_committed out = [] then [] else [(COMMITTED_FILE_PATH, Mode_a)])
             @ [(PENDING_FILE_PATH, Mode_w), (PENDING_FILE_PATH, Mode_w)]
         \<and> (\<exists>first final. pending_states (files_after out)
                             = pending_states fs @ [[], first, [], final]
                         \<and> pending_file (files_after out) = Some final)"
proof -
  from assms have f: "status (main u e jira fs w) = Finished" by simp
  show ?thesis
    unfolding assms(1) main_Finished_files(1) [OF f]
    by (simp add: write_back_pending write_back_committed read_pending_def)
qed

theorem pending_log_rewritten_in_place_witness:
  "status example_run = Finished
   \<and> opened (files_after example_run)
       = [(PENDING_FILE_PATH, Mode_r), (PENDING_FILE_PATH, Mode_r), (COMMITTED_FILE_PATH, Mode_a),
          (PENDING_FILE_PATH, Mode_w), (PENDING_FILE_PATH, Mode_w)]
   \<and> (\<exists>first final. pending_states (files_after example_run) = [[], first, [], final]
                   \<and> pending_file (files_after example_run) = Some final)"
proof -
  have a: "status example_run = Finished" by code_simp
  have b: "all_committed example_run \<noteq> []" by code_simp
  have c: "opened example_files = []" "pending_states example_files = []"
    by (simp_all add: example_files_def)
  from pending_log_rewritten_in_place [OF example_run_def a] a b c show ?thesis by simp
qed

section \<open>The claims about single entries\<close>








text \<open>
  C6. \<^verbatim>\<open>process_single_entry\<close> takes the category of an entry from \<^verbatim>\<open>Story\<close> and \<^verbatim>\<open>Bug\<close> as
  the claim says: an absent type is \<^verbatim>\<open>Story\<close>, a type that capitalizes to \<^verbatim>\<open>Bug\<close> is
  \<^verbatim>\<open>Bug\<close>, and anything else is \<^verbatim>\<open>Story\<close>, with a warning when it is not \<^verbatim>\<open>Story\<close> itself.
\<close>

lemma capitalize_Story: "capitalize ''Story'' = ''Story''"
  by code_simp

lemma issue_type_of_cases:
  "issue_type_of entry =
     (case entry_type entry of
        None \<Rightarrow> ''Story''
      | Some t \<Rightarrow> if capitalize t = ''Bug'' then ''Bug'' else ''Story'')"
  by (auto simp: issue_type_of_def determine_issue_type_def Let_def capitalize_Story
           split: option.splits)

lemma determine_issue_type_warning:
  "events (snd (determine_issue_type entry title w)) = events w
     \<longleftrightarrow> (case entry_type entry of
            None \<Rightarrow> True
          | Some t \<Rightarrow> capitalize t = ''Bug'' \<or> capitalize t = ''Story'')"
  by (auto simp: determine_issue_type_def Let_def capitalize_Story record_event_def
           split: option.splits)

text \<open>
  The category does not reach the tracker: the connector builds the fields of the new
  issue from its own parameter \<^verbatim>\<open>issue_type\<close>, which the call leaves at its default, so
  every issue is created with the type \<^verbatim>\<open>Story\<close>.
\<close>

lemma every_issue_created_as_story:
  assumes f: "status (main u e jira fs w) = Finished"
    and i: "i < length (entries (main u e jira fs w))"
    and c: "Client_create_issue dict r \<in> set (events_of_entry e jira fs w i)"
  shows "issuetype dict = ''Story''"
proof -
  from c have ne: "events_of_entry e jira fs w i \<noteq> []" by auto
  with main_entry_trace [OF f i] obtain res before pre dup cr where
    ev: "events_of_entry e jira fs w i = pre @ dup @ cr" "list_all pre_event pre"
      "duplicate_events jira (before @ pre)
                (issue_type_of (parse_pending_entry (entries (main u e jira fs w) ! i)))
                (final_summary (parse_pending_entry (entries (main u e jira fs w) ! i))) dup"
    and d: "(cr = [] \<and> res = (False, Some ''skipped'') \<and> (dup \<noteq> [] \<longrightarrow> declined dup))
              \<or> (creation_events (parse_pending_entry (entries (main u e jira fs w) ! i)) cr res
                  \<and> \<not> declined dup)"
    by blast
  from ev(2) have 1: "Client_create_issue dict r \<notin> set pre" by (auto simp: list_all_iff)
  from ev(3) have 2: "Client_create_issue dict r \<notin> set dup"
    unfolding duplicate_events_def by auto
  from c ev(1) 1 2 have 3: "Client_create_issue dict r \<in> set cr" by simp
  with d have "creation_events (parse_pending_entry (entries (main u e jira fs w) ! i)) cr res"
    by auto
  then obtain f' r' tseg where cr: "cr = Client_create_issue f' r' # tseg"
    and s: "issuetype f' = ''Story''"
    and n: "\<not> truthy r' \<longrightarrow> tseg = []"
    and t: "truthy r' \<longrightarrow> (\<exists>ok. transition_events (the r') tseg ok)"
    unfolding creation_events_def by blast
  have "Client_create_issue dict r \<notin> set tseg"
  proof (cases "truthy r'")
    case False
    with n show ?thesis by simp
  next
    case True
    with t obtain ok where "transition_events (the r') tseg ok" by blast
    then show ?thesis unfolding transition_events_def by auto
  qed
  with cr 3 s show ?thesis by simp
qed

text \<open>
  The run on the pending log with one bug: the entry's category is \<^verbatim>\<open>Bug\<close> and the
  committed record says so, the only issue created has the type \<^verbatim>\<open>Story\<close>.
\<close>

fun created_issue_types :: "event list \<Rightarrow> string list" where
  "created_issue_types [] = []"
| "created_issue_types (Client_create_issue f r # evs) = issuetype f # created_issue_types evs"
| "created_issue_types (ev # evs) = created_issue_types evs"

theorem bug_entry_created_as_story:
  "status bug_run = Finished
   \<and> entries bug_run = [''Draft Summary: Crash on save\<newline>Type: bug'']
   \<and> issue_type_of (parse_pending_entry ''Draft Summary: Crash on save\<newline>Type: bug'') = ''Bug''
   \<and> created_issue_types (events (world_after bug_run)) = [''Story'']
   \<and> all_committed bug_run =
       [''## Epic: N/A [N/A]\<newline>\<newline>### Bug: ROIA-10 - Crash on save (Status: Done)\<newline>\<newline>**Description:**\<newline>Description to be added.\<newline>\<newline>## Acceptance Criteria\<newline>- Acceptance criteria to be added.\<newline>---\<newline>'']"
  by code_simp

section \<open>The claims about the whole run\<close>



end
